theory Spec2Isabelle
  imports Main "HOL-Library.Sublist"
begin

section \<open>Strings\<close>

text \<open>
  The program is \<^verbatim>\<open>auto_build.py\<close>. A text of the program (an environment variable,
  an identifier, a directory name) is modelled by the list of its bytes in UTF-8: an ASCII
  character is one character below 128, every other character is a run of characters from
  128 on. Comparing, concatenating, searching for and removing ASCII characters work on
  these bytes as they do on the text. \<^verbatim>\<open>str.lower()\<close> and \<^verbatim>\<open>str.split()\<close> follow
  the Unicode tables of the interpreter: on ASCII text they are computed here, on any other
  text they are taken from a parameter.
\<close>

definition is_ascii :: "string \<Rightarrow> bool" where
  "is_ascii s = list_all (\<lambda>c. (of_char c :: nat) < 128) s"

record unicode =
  str_lower :: "string \<Rightarrow> string"
    \<comment> \<open>what \<^verbatim>\<open>s.lower()\<close> returns for a text that is not ASCII\<close>
  str_split :: "string \<Rightarrow> string list"
    \<comment> \<open>what \<^verbatim>\<open>s.split()\<close> returns for a text that is not ASCII\<close>

definition is_ident_char :: "char \<Rightarrow> bool" where
  \<comment> \<open>the character class \<^verbatim>\<open>[A-Z0-9_]\<close> of the regular expression in \<^verbatim>\<open>get_flags\<close>\<close>
  "is_ident_char c =
     (let n = (of_char c :: nat)
      in (65 \<le> n \<and> n \<le> 90) \<or> (48 \<le> n \<and> n \<le> 57) \<or> c = CHR ''_'')"

definition lower_char :: "char \<Rightarrow> char" where
  \<comment> \<open>\<^verbatim>\<open>str.lower\<close> on one ASCII character\<close>
  "lower_char c =
     (let n = (of_char c :: nat)
      in if 65 \<le> n \<and> n \<le> 90 then char_of (n + 32) else c)"

definition lower :: "unicode \<Rightarrow> string \<Rightarrow> string" where
  \<comment> \<open>\<^verbatim>\<open>s.lower()\<close>: on ASCII text only the letters A to Z change\<close>
  "lower u s = (if is_ascii s then map lower_char s else str_lower u s)"

definition remove_underscores :: "string \<Rightarrow> string" where
  \<comment> \<open>\<^verbatim>\<open>s.replace('_', '')\<close>\<close>
  "remove_underscores s = filter (\<lambda>c. c \<noteq> CHR ''_'') s"

definition startswith :: "string \<Rightarrow> string \<Rightarrow> bool" where
  \<comment> \<open>\<^verbatim>\<open>s.startswith(p)\<close>\<close>
  "startswith s p = (take (length p) s = p)"

section \<open>Module resolution\<close>

definition get_module_dir :: "unicode \<Rightarrow> string \<Rightarrow> string" where
  "get_module_dir u flag =
     (if startswith flag ''CUSTOM_MUTATOR_'' then ''custommutator''
      else if flag = ''BITCOIN_CORE'' then ''modules/bitcoin''
      else ''modules/'' @ remove_underscores (lower u flag))"

definition needs_rust_nightly :: "string \<Rightarrow> bool" where
  "needs_rust_nightly flag =
     (flag \<in> {''RUST_BITCOIN'', ''RUST_MINISCRIPT'', ''LDK'', ''TINY_MINISCRIPT'',
               ''RUSTBITCOINKERNEL''})"

definition should_build_sequentially :: "string \<Rightarrow> bool" where
  "should_build_sequentially flag =
     (flag \<in> {''SECP256K1'', ''BITCOINJ'', ''LIGHTNING_KMP''}
      \<or> startswith flag ''CUSTOM_MUTATOR_'')"

section \<open>Flag parsing\<close>

text \<open>
  \<^verbatim>\<open>re.findall(r"-D([A-Z0-9_]+)", cxxflags)\<close> scans the string from the left. At
  each position it tries the pattern: the two characters \<^verbatim>\<open>-D\<close> and then the longest
  non-empty run of identifier characters. A match contributes its group and the scan
  goes on behind the match; otherwise the scan moves one character on.
\<close>

definition match_at :: "string \<Rightarrow> (string \<times> string) option" where
  \<comment> \<open>the pattern tried at the head of the string: the group and the text behind the match\<close>
  "match_at s =
     (case s of
        a # b # rest \<Rightarrow>
          if a = CHR ''-'' \<and> b = CHR ''D'' \<and> takeWhile is_ident_char rest \<noteq> []
          then Some (takeWhile is_ident_char rest, dropWhile is_ident_char rest)
          else None
      | _ \<Rightarrow> None)"

lemma match_at_shorter: "match_at s = Some (g, rest) \<Longrightarrow> length rest < length s"
proof -
  assume m: "match_at s = Some (g, rest)"
  then obtain a b t where s: "s = a # b # t" and r: "rest = dropWhile is_ident_char t"
    by (auto simp: match_at_def split: list.splits if_splits)
  have "length (dropWhile is_ident_char t) \<le> length t"
    by (rule length_dropWhile_le)
  with s r show ?thesis by simp
qed

function get_flags :: "string \<Rightarrow> string list" where
  "get_flags s =
     (case match_at s of
        Some (g, rest) \<Rightarrow> g # get_flags rest
      | None \<Rightarrow> (case s of [] \<Rightarrow> [] | c # cs \<Rightarrow> get_flags cs))"
  by pat_completeness auto
termination
  by (relation "measure length") (auto dest: match_at_shorter)

declare get_flags.simps [simp del]


definition is_space :: "char \<Rightarrow> bool" where
  \<comment> \<open>the ASCII characters \<^verbatim>\<open>str.split()\<close> treats as whitespace\<close>
  "is_space c = (let n = (of_char c :: nat) in (9 \<le> n \<and> n \<le> 13) \<or> (28 \<le> n \<and> n \<le> 32))"

function split_ws :: "string \<Rightarrow> string list" where
  \<comment> \<open>\<^verbatim>\<open>s.split()\<close> on ASCII text: the maximal runs of non-whitespace characters\<close>
  "split_ws s =
     (case dropWhile is_space s of
        [] \<Rightarrow> []
      | c # cs \<Rightarrow>
          (c # takeWhile (\<lambda>x. \<not> is_space x) cs) # split_ws (dropWhile (\<lambda>x. \<not> is_space x) cs))"
  by pat_completeness auto
termination
proof (relation "measure length", goal_cases)
  case 1
  show ?case by simp
next
  case (2 s c cs)
  have "length (dropWhile (\<lambda>x. \<not> is_space x) cs) \<le> length cs"
    by (rule length_dropWhile_le)
  moreover have "length (dropWhile is_space s) \<le> length s"
    by (rule length_dropWhile_le)
  ultimately show ?case using 2 by simp
qed

declare split_ws.simps [simp del]

definition py_split :: "unicode \<Rightarrow> string \<Rightarrow> string list" where
  \<comment> \<open>\<^verbatim>\<open>s.split()\<close>\<close>
  "py_split u s = (if is_ascii s then split_ws s else str_split u s)"

fun join_sp :: "string list \<Rightarrow> string" where
  \<comment> \<open>\<^verbatim>\<open>' '.join(xs)\<close>\<close>
  "join_sp [] = []"
| "join_sp [x] = x"
| "join_sp (x # y # ys) = x @ '' '' @ join_sp (y # ys)"

fun digits :: "nat \<Rightarrow> string" where
  "digits n = (if n < 10 then [char_of (48 + n)] else digits (n div 10) @ [char_of (48 + n mod 10)])"

declare digits.simps [simp del]

definition str_int :: "int \<Rightarrow> string" where
  \<comment> \<open>\<^verbatim>\<open>str(n)\<close> of an integer, as an f-string renders it\<close>
  "str_int i = (if i < 0 then ''-'' @ digits (nat (- i)) else digits (nat i))"

section \<open>Effects\<close>

text \<open>
  What a piece of the program does is its log, in order, together with the exception
  that ended it, if one did. \<^verbatim>\<open>sys.exit(1)\<close> raises \<^verbatim>\<open>SystemExit\<close>, which is
  not a subclass of \<^verbatim>\<open>Exception\<close>; every other exception the runtime can raise
  (\<^verbatim>\<open>OSError\<close> from \<^verbatim>\<open>subprocess.run\<close>, \<^verbatim>\<open>ValueError\<close> from \<^verbatim>\<open>int\<close>) is
  one.
\<close>

datatype exn = SystemExit int | PyException

datatype event =
    Stdout string
  | Stderr string
  | Subprocess "string option" string
    \<comment> \<open>\<^verbatim>\<open>subprocess.run(cmd, cwd=cwd, shell=True)\<close> was called: the directory, the command\<close>

type_synonym outcome = "event list \<times> exn option"

definition skip :: outcome where
  "skip = ([], None)"

definition emit :: "event \<Rightarrow> outcome" where
  "emit e = ([e], None)"

definition raise :: "exn \<Rightarrow> outcome" where
  "raise e = ([], Some e)"

definition andthen :: "outcome \<Rightarrow> outcome \<Rightarrow> outcome" where
  \<comment> \<open>sequencing of statements: an exception in the first skips the second\<close>
  "andthen a b = (case snd a of Some e \<Rightarrow> a | None \<Rightarrow> (fst a @ fst b, snd b))"

fun for_each :: "('a \<Rightarrow> outcome) \<Rightarrow> 'a list \<Rightarrow> outcome" where
  \<comment> \<open>a \<^verbatim>\<open>for\<close> loop whose body is \<open>f\<close>\<close>
  "for_each f [] = skip"
| "for_each f (x # xs) = andthen (f x) (for_each f xs)"

section \<open>The world outside the program\<close>

record completed =
  returncode :: int
  stdout :: string
  stderr :: string

record world =
  is_dir :: "string \<Rightarrow> bool"
    \<comment> \<open>\<^verbatim>\<open>Path(p).is_dir()\<close>\<close>
  subprocess_run :: "string option \<Rightarrow> string \<Rightarrow> completed option"
    \<comment> \<open>the process \<^verbatim>\<open>subprocess.run\<close> returns for a directory and a command;
        \<open>None\<close> when the call raises instead\<close>
  glob_modules :: "string list"
    \<comment> \<open>the paths \<^verbatim>\<open>Path("modules").glob("*/")\<close> yields\<close>
  completion_order :: "string list \<Rightarrow> string list"
    \<comment> \<open>the order in which the builds submitted to the pool finish (a permutation of
        the submitted modules), which is the order \<^verbatim>\<open>as_completed\<close> yields them in\<close>
  tables :: unicode
    \<comment> \<open>the Unicode tables of the interpreter\<close>

record environ =
  CXXFLAGS :: "string option"
  CLEAN_BUILD :: "string option"
  PARALLEL_JOBS :: "int option"
    \<comment> \<open>\<^verbatim>\<open>int(os.environ.get("PARALLEL_JOBS", "0"))\<close>: \<open>Some 0\<close> when the variable is not
        set, \<open>None\<close> when \<^verbatim>\<open>int\<close> raises \<^verbatim>\<open>ValueError\<close>\<close>
  ONLY_MODULES :: "int option"
    \<comment> \<open>\<^verbatim>\<open>int(os.environ.get("ONLY_MODULES", "0"))\<close>, likewise\<close>

section \<open>Running commands\<close>

definition die :: "string \<Rightarrow> outcome" where
  "die msg = andthen (emit (Stderr (''Error: '' @ msg))) (raise (SystemExit 1))"

definition run :: "world \<Rightarrow> string \<Rightarrow> string option \<Rightarrow> bool \<Rightarrow> outcome" where
  "run w cmd cwd quiet =
     andthen
       (if \<not> quiet
        then emit (Stdout ((case cwd of
                              None \<Rightarrow> []
                            | Some d \<Rightarrow> if d = [] then [] else ''(cd '' @ d @ '') '') @ cmd))
        else skip)
       (andthen (emit (Subprocess cwd cmd))
          (case subprocess_run w cwd cmd of
             None \<Rightarrow> raise PyException
           | Some proc \<Rightarrow>
               if returncode proc \<noteq> 0
               then andthen
                      (if quiet
                       then andthen (emit (Stdout (stdout proc))) (emit (Stdout (stderr proc)))
                       else skip)
                      (die (''Command failed: '' @ cmd))
               else skip))"

definition execute_in_dir :: "world \<Rightarrow> string \<Rightarrow> string \<Rightarrow> bool \<Rightarrow> outcome" where
  "execute_in_dir w dirpath command quiet =
     andthen
       (if \<not> is_dir w dirpath then die (''Directory '' @ dirpath @ '' does not exist'') else skip)
       (run w command (Some dirpath) quiet)"

section \<open>Cleaning\<close>

definition full_clean :: "world \<Rightarrow> outcome" where
  "full_clean w =
     andthen (emit (Stdout ''Performing full clean...''))
       (andthen (for_each (\<lambda>d. execute_in_dir w d ''make clean'' False) (glob_modules w))
          (execute_in_dir w ''custommutator'' ''make clean'' False))"

definition clean_by_flags :: "world \<Rightarrow> string list \<Rightarrow> outcome" where
  "clean_by_flags w flags =
     andthen (emit (Stdout (''Cleaning modules: '' @ join_sp flags)))
       (for_each (\<lambda>flag. execute_in_dir w (get_module_dir (tables w) flag) ''make clean'' False)
          flags)"

section \<open>Building one module\<close>

definition check_mark :: string where
  \<comment> \<open>the bytes of the marker in front of the success line of quiet mode\<close>
  "check_mark = [CHR 0xC3, CHR 0xA2, CHR 0xC5, CHR 0x93, CHR 0xE2, CHR 0x80, CHR 0x9C]"

definition build_module :: "world \<Rightarrow> string \<Rightarrow> bool \<Rightarrow> outcome" where
  "build_module w flag quiet =
     (let dirpath = get_module_dir (tables w) flag
      in andthen (if \<not> quiet then emit (Stdout (''Building module: '' @ flag)) else skip)
           (andthen
              (if needs_rust_nightly flag
               then execute_in_dir w dirpath ''rustup default nightly && make cargo && make'' quiet
               else execute_in_dir w dirpath ''make'' quiet)
              (if quiet then emit (Stdout (check_mark @ '' '' @ flag @ '' built successfully''))
               else skip)))"

section \<open>The run\<close>

text \<open>
  \<^verbatim>\<open>main\<close> runs in the main thread. It starts one thread for the sequential group
  and hands every module of the parallel group to a thread pool. Each thread has its own
  log. What the threads do to one another is what the source lets them:
  \<^item> an exception that leaves the target of a \<^verbatim>\<open>threading.Thread\<close> ends that thread
    and no other; \<^verbatim>\<open>join\<close> returns nothing, and \<^verbatim>\<open>main\<close> reads nothing else of
    the thread;
  \<^item> an exception that leaves a function submitted to the pool is stored in its future,
    and \<^verbatim>\<open>fut.result()\<close> raises it again in the main thread.
\<close>

record result =
  main_thread :: outcome
    \<comment> \<open>the log of the main thread and the exception that ended it\<close>
  seq_thread :: "outcome option"
    \<comment> \<open>the thread of the sequential group, when it was started\<close>
  pool :: "(string \<times> outcome) list"
    \<comment> \<open>the modules submitted to the pool, each with the run of its build\<close>

definition single_thread :: "outcome \<Rightarrow> result" where
  "single_thread m = \<lparr>main_thread = m, seq_thread = None, pool = []\<rparr>"

definition exit_code :: "result \<Rightarrow> int" where
  \<comment> \<open>the exit status of the process: that of the main thread\<close>
  "exit_code r =
     (case snd (main_thread r) of
        None \<Rightarrow> 0
      | Some (SystemExit n) \<Rightarrow> n
      | Some PyException \<Rightarrow> 1)"

definition usage :: string where
  "usage = ''CXXFLAGS not defined. Example: CXXFLAGS='' @ [CHR 0x22] @ ''-DLDK -DLND''
             @ [CHR 0x22] @ '' ./auto_build.py''"

definition clean_step :: "environ \<Rightarrow> world \<Rightarrow> string \<Rightarrow> outcome" where
  \<comment> \<open>the choice of the clean mode in \<^verbatim>\<open>main\<close>\<close>
  "clean_step env w cxxflags =
     (case CLEAN_BUILD env of
        None \<Rightarrow> emit (Stdout ''No CLEAN_BUILD option specified. Skipping clean step.'')
      | Some clean_build \<Rightarrow>
          if clean_build = []
          then emit (Stdout ''No CLEAN_BUILD option specified. Skipping clean step.'')
          else if clean_build = ''FULL'' then full_clean w
          else if clean_build = ''CLEAN'' then clean_by_flags w (get_flags cxxflags)
          else clean_by_flags w (py_split (tables w) clean_build))"

definition cleaning :: "environ \<Rightarrow> world \<Rightarrow> string \<Rightarrow> outcome" where
  \<comment> \<open>\<^verbatim>\<open>main\<close> from the first \<^verbatim>\<open>print\<close> to the end of the clean mode\<close>
  "cleaning env w cxxflags =
     andthen (emit (Stdout ''Cleaning previous builds...''))
       (andthen (run w ''make clean'' None False) (clean_step env w cxxflags))"

definition sequential :: "string list \<Rightarrow> string list" where
  "sequential flags = filter should_build_sequentially flags"

definition parallel :: "string list \<Rightarrow> string list" where
  "parallel flags = filter (\<lambda>f. \<not> should_build_sequentially f) flags"

definition run_sequential :: "world \<Rightarrow> string list \<Rightarrow> bool \<Rightarrow> outcome" where
  "run_sequential w seq quiet =
     andthen (emit (Stdout (''Starting sequential module builds:'' @ join_sp seq)))
       (for_each (\<lambda>f. build_module w f quiet) seq)"

fun first_raised :: "outcome list \<Rightarrow> exn option" where
  \<comment> \<open>\<^verbatim>\<open>for fut in as_completed(futures): fut.result()\<close>: the first stored exception\<close>
  "first_raised [] = None"
| "first_raised (r # rs) = (case snd r of Some e \<Rightarrow> Some e | None \<Rightarrow> first_raised rs)"

definition parallel_builds :: "world \<Rightarrow> string list \<Rightarrow> string list \<Rightarrow> int \<Rightarrow> bool \<Rightarrow> outcome" where
  \<comment> \<open>the \<^verbatim>\<open>with ThreadPoolExecutor(...)\<close> block, as the main thread sees it; a negative
      \<^verbatim>\<open>max_workers\<close> makes the constructor raise \<^verbatim>\<open>ValueError\<close>\<close>
  "parallel_builds w seq par parallel_jobs quiet =
     (if parallel_jobs < 0 then raise PyException
      else case first_raised (map (\<lambda>f. build_module w f quiet) (completion_order w par)) of
             None \<Rightarrow> skip
           | Some (SystemExit n) \<Rightarrow> raise (SystemExit n)
           | Some PyException \<Rightarrow>
               andthen
                 (if seq \<noteq> []
                  then emit (Stdout ''Parallel build failed, terminating sequential builds'')
                  else skip)
                 (die ''One or more module builds failed''))"

definition finish :: "environ \<Rightarrow> world \<Rightarrow> outcome" where
  \<comment> \<open>\<^verbatim>\<open>main\<close> behind \<^verbatim>\<open>seq_thread.join()\<close>\<close>
  "finish env w =
     andthen (emit (Stdout ''All module builds completed successfully!''))
       (case ONLY_MODULES env of
          None \<Rightarrow> raise PyException
        | Some only_modules \<Rightarrow>
            andthen
              (if only_modules = 0
               then andthen (emit (Stdout ''Compiling the main project in the root...''))
                      (run w ''make'' None False)
               else skip)
              (emit (Stdout ''Build completed successfully!'')))"

definition compiling_line :: "int \<Rightarrow> string \<Rightarrow> string" where
  "compiling_line parallel_jobs cxxflags =
     (if parallel_jobs = 1
      then ''Compiling selected modules sequentially with CXXFLAGS='' @ cxxflags @ ''...''
      else ''Compiling selected modules in parallel (jobs='' @ str_int parallel_jobs @ '') ''
             @ ''with CXXFLAGS='' @ cxxflags @ ''...'')"

definition main :: "environ \<Rightarrow> world \<Rightarrow> result" where
  "main env w =
     (case CXXFLAGS env of
        None \<Rightarrow> single_thread (die usage)
      | Some cxxflags \<Rightarrow>
          if cxxflags = [] then single_thread (die usage)
          else
            let cleaned = cleaning env w cxxflags;
                flags = get_flags cxxflags
            in if snd cleaned \<noteq> None then single_thread cleaned
               else if flags = []
               then single_thread (andthen cleaned (emit (Stdout ''No modules to build.'')))
               else
                 (case PARALLEL_JOBS env of
                    None \<Rightarrow> single_thread (andthen cleaned (raise PyException))
                  | Some parallel_jobs \<Rightarrow>
                      let quiet = (parallel_jobs \<noteq> 1);
                          seq = sequential flags;
                          par = parallel flags
                      in \<lparr>main_thread =
                            andthen cleaned
                              (andthen (emit (Stdout (compiling_line parallel_jobs cxxflags)))
                                 (andthen
                                    (if par \<noteq> [] then parallel_builds w seq par parallel_jobs quiet
                                     else skip)
                                    (finish env w))),
                          seq_thread =
                            (if seq \<noteq> [] then Some (run_sequential w seq quiet) else None),
                          pool =
                            (if par \<noteq> [] \<and> 0 \<le> parallel_jobs
                             then map (\<lambda>f. (f, build_module w f quiet)) par else [])\<rparr>))"

section \<open>Notions used in the properties\<close>

fun has_match :: "string \<Rightarrow> bool" where
  \<comment> \<open>the text holds a token of the shape \<^verbatim>\<open>-D<IDENTIFIER>\<close>: somewhere the characters
      \<^verbatim>\<open>-D\<close> stand in front of an identifier character\<close>
  "has_match (a # b # c # s) =
     ((a = CHR ''-'' \<and> b = CHR ''D'' \<and> is_ident_char c) \<or> has_match (b # c # s))"
| "has_match _ = False"

fun subprocesses :: "event list \<Rightarrow> (string option \<times> string) list" where
  \<comment> \<open>the commands a log handed to \<^verbatim>\<open>subprocess.run\<close>, in order, each with its directory\<close>
  "subprocesses [] = []"
| "subprocesses (Subprocess cwd cmd # es) = (cwd, cmd) # subprocesses es"
| "subprocesses (Stdout s # es) = subprocesses es"
| "subprocesses (Stderr s # es) = subprocesses es"

text \<open>
  \<^verbatim>\<open>subprocess.run(cmd, shell=True)\<close> hands the command line to the shell. The only shell
  syntax in the command lines of this program is the AND-list \<^verbatim>\<open>a && b && c\<close>: the shell
  runs its commands from left to right and stops behind the first one that fails.
\<close>

fun split_and :: "string \<Rightarrow> string \<Rightarrow> string list" where
  \<comment> \<open>the text split at every \<^verbatim>\<open> && \<close>; the first argument collects the current command\<close>
  "split_and acc [] = [rev acc]"
| "split_and acc (c # cs) =
     (if take 4 (c # cs) = '' && '' then rev acc # split_and [] (drop 3 cs)
      else split_and (c # acc) cs)"

definition sh_and_list :: "string \<Rightarrow> string list" where
  "sh_and_list cmd = split_and [] cmd"

fun sh_executed :: "(string \<Rightarrow> bool) \<Rightarrow> string list \<Rightarrow> string list" where
  \<comment> \<open>the commands of an AND-list that the shell runs, when \<open>ok\<close> tells which ones succeed\<close>
  "sh_executed ok [] = []"
| "sh_executed ok (c # cs) = (if ok c then c # sh_executed ok cs else [c])"

section \<open>Example worlds\<close>

definition example_tables :: unicode where
  \<comment> \<open>tables for the examples, which hold ASCII texts and one other text: the bytes
      \<^verbatim>\<open>C3 84 5F 42\<close> (A with diaeresis, underscore, B), which \<^verbatim>\<open>lower\<close> turns into
      \<^verbatim>\<open>C3 A4 5F 62\<close> and \<^verbatim>\<open>split\<close> leaves in one piece\<close>
  "example_tables =
     \<lparr>str_lower =
        (\<lambda>s. if s = [CHR 0xC3, CHR 0x84, CHR ''_'', CHR ''B'']
             then [CHR 0xC3, CHR 0xA4, CHR ''_'', CHR ''b''] else s),
      str_split = (\<lambda>s. [s])\<rparr>"

definition all_succeed :: world where
  \<comment> \<open>every directory exists and every command returns 0\<close>
  "all_succeed =
     \<lparr>is_dir = (\<lambda>d. True),
      subprocess_run = (\<lambda>cwd cmd. Some \<lparr>returncode = 0, stdout = [], stderr = []\<rparr>),
      glob_modules = [],
      completion_order = (\<lambda>fs. fs),
      tables = example_tables\<rparr>"

definition failing_in :: "string \<Rightarrow> world" where
  \<comment> \<open>as \<open>all_succeed\<close>, but every command run in the directory \<open>d\<close> returns 2\<close>
  "failing_in d =
     all_succeed
       \<lparr>subprocess_run :=
          (\<lambda>cwd cmd. Some \<lparr>returncode = (if cwd = Some d then 2 else 0),
                              stdout = [], stderr = []\<rparr>)\<rparr>"

definition only_cxxflags :: "string \<Rightarrow> environ" where
  \<comment> \<open>the environment in which \<^verbatim>\<open>CXXFLAGS\<close> is the only variable set\<close>
  "only_cxxflags c =
     \<lparr>CXXFLAGS = Some c, CLEAN_BUILD = None, PARALLEL_JOBS = Some 0, ONLY_MODULES = Some 0\<rparr>"

definition clean_dirs :: "environ \<Rightarrow> world \<Rightarrow> string \<Rightarrow> string list" where
  \<comment> \<open>the directories the clean mode visits, in order: none, those of the full clean, those
      of the flags being built, or those of the identifiers listed in \<^verbatim>\<open>CLEAN_BUILD\<close>\<close>
  "clean_dirs env w cxxflags =
     (case CLEAN_BUILD env of
        None \<Rightarrow> []
      | Some clean_build \<Rightarrow>
          if clean_build = [] then []
          else if clean_build = ''FULL'' then glob_modules w @ [''custommutator'']
          else if clean_build = ''CLEAN''
          then map (get_module_dir (tables w)) (get_flags cxxflags)
          else map (get_module_dir (tables w)) (py_split (tables w) clean_build))"

definition clean_ok :: "world \<Rightarrow> string \<Rightarrow> bool" where
  \<comment> \<open>the clean step of a directory succeeds: the directory exists and \<^verbatim>\<open>make clean\<close>
      returns 0 there\<close>
  "clean_ok w d =
     (is_dir w d \<and>
      (case subprocess_run w (Some d) ''make clean'' of
         None \<Rightarrow> False
       | Some proc \<Rightarrow> returncode proc = 0))"

section \<open>Properties of module resolution\<close>

lemma startswith_prefix: "startswith s p = prefix p s"
  unfolding startswith_def
  by (metis append_take_drop_id prefix_def append_eq_conv_conj)

lemma upper_letter_code:
  "c \<in> set ''ABCDEFGHIJKLMNOPQRSTUVWXYZ'' \<Longrightarrow> 65 \<le> (of_char c :: nat) \<and> (of_char c :: nat) \<le> 90"
  by auto

lemma lower_char_not_upper: "lower_char c \<notin> set ''ABCDEFGHIJKLMNOPQRSTUVWXYZ''"
proof
  assume "lower_char c \<in> set ''ABCDEFGHIJKLMNOPQRSTUVWXYZ''"
  then have u: "65 \<le> (of_char (lower_char c) :: nat) \<and> (of_char (lower_char c) :: nat) \<le> 90"
    by (rule upper_letter_code)
  show False
  proof (cases "65 \<le> (of_char c :: nat) \<and> (of_char c :: nat) \<le> 90")
    case True
    then have "(of_char (lower_char c) :: nat) = of_char c + 32"
      by (simp add: lower_char_def Let_def)
    with True u show False by simp
  next
    case False
    then have "lower_char c = c" by (auto simp: lower_char_def Let_def)
    with False u show False by simp
  qed
qed

lemma lower_ascii: "is_ascii s \<Longrightarrow> lower u s = map lower_char s"
  by (simp add: lower_def)

lemma lower_other: "\<not> is_ascii s \<Longrightarrow> lower u s = str_lower u s"
  by (simp add: lower_def)

lemma no_underscore_left: "CHR ''_'' \<notin> set (remove_underscores s)"
  by (simp add: remove_underscores_def)

text \<open>
  Claim C7. \<^verbatim>\<open>get_module_dir\<close> is a function of the text of the identifier, with no
  failing branch: an identifier that starts with \<^verbatim>\<open>CUSTOM_MUTATOR_\<close> resolves to the
  shared directory \<^verbatim>\<open>custommutator\<close>, \<^verbatim>\<open>BITCOIN_CORE\<close> resolves to
  \<^verbatim>\<open>modules/bitcoin\<close>, and every other identifier resolves to what \<^verbatim>\<open>str.lower()\<close>
  makes of it, with the underscores removed, under \<^verbatim>\<open>modules/\<close>. That name has no
  underscore. For an ASCII identifier it does not depend on the Unicode tables: only the
  letters A to Z change, the length is kept and no capital letter is left. For any other
  identifier the lowercased text is the one the tables of the interpreter give.
\<close>

theorem get_module_dir_cases:
  "(prefix ''CUSTOM_MUTATOR_'' flag \<longrightarrow> get_module_dir u flag = ''custommutator'') \<and>
   (flag = ''BITCOIN_CORE'' \<longrightarrow> get_module_dir u flag = ''modules/bitcoin'') \<and>
   (\<not> prefix ''CUSTOM_MUTATOR_'' flag \<and> flag \<noteq> ''BITCOIN_CORE'' \<longrightarrow>
      get_module_dir u flag = ''modules/'' @ remove_underscores (lower u flag) \<and>
      CHR ''_'' \<notin> set (remove_underscores (lower u flag)) \<and>
      (\<not> is_ascii flag \<longrightarrow> lower u flag = str_lower u flag) \<and>
      (is_ascii flag \<longrightarrow>
         lower u flag = map lower_char flag \<and>
         length (lower u flag) = length flag \<and>
         (\<forall>c \<in> set (lower u flag). c \<notin> set ''ABCDEFGHIJKLMNOPQRSTUVWXYZ'') \<and>
         get_module_dir u' flag = get_module_dir u flag))"
proof -
  have a: "prefix ''CUSTOM_MUTATOR_'' flag \<longrightarrow> get_module_dir u flag = ''custommutator''"
    by (simp add: get_module_dir_def startswith_prefix)
  have b: "flag = ''BITCOIN_CORE'' \<longrightarrow> get_module_dir u flag = ''modules/bitcoin''"
    by (simp add: get_module_dir_def startswith_def)
  have c: "\<not> prefix ''CUSTOM_MUTATOR_'' flag \<and> flag \<noteq> ''BITCOIN_CORE'' \<longrightarrow>
      get_module_dir u flag = ''modules/'' @ remove_underscores (lower u flag) \<and>
      CHR ''_'' \<notin> set (remove_underscores (lower u flag)) \<and>
      (\<not> is_ascii flag \<longrightarrow> lower u flag = str_lower u flag) \<and>
      (is_ascii flag \<longrightarrow>
         lower u flag = map lower_char flag \<and>
         length (lower u flag) = length flag \<and>
         (\<forall>c \<in> set (lower u flag). c \<notin> set ''ABCDEFGHIJKLMNOPQRSTUVWXYZ'') \<and>
         get_module_dir u' flag = get_module_dir u flag)"
  proof (intro impI, elim conjE)
    assume h: "\<not> prefix ''CUSTOM_MUTATOR_'' flag" "flag \<noteq> ''BITCOIN_CORE''"
    then have d: "get_module_dir v flag = ''modules/'' @ remove_underscores (lower v flag)" for v
      by (simp add: get_module_dir_def startswith_prefix)
    have o: "\<not> is_ascii flag \<longrightarrow> lower u flag = str_lower u flag"
      using lower_other by blast
    have i: "is_ascii flag \<longrightarrow>
         lower u flag = map lower_char flag \<and>
         length (lower u flag) = length flag \<and>
         (\<forall>c \<in> set (lower u flag). c \<notin> set ''ABCDEFGHIJKLMNOPQRSTUVWXYZ'') \<and>
         get_module_dir u' flag = get_module_dir u flag"
    proof
      assume asc: "is_ascii flag"
      note l = lower_ascii [OF asc]
      have l1: "lower u flag = map lower_char flag" by (rule l)
      have l2: "length (lower u flag) = length flag" unfolding l by simp
      have l3: "\<forall>c \<in> set (lower u flag). c \<notin> set ''ABCDEFGHIJKLMNOPQRSTUVWXYZ''"
      proof
        fix c assume "c \<in> set (lower u flag)"
        then obtain x where "c = lower_char x" unfolding l by auto
        then show "c \<notin> set ''ABCDEFGHIJKLMNOPQRSTUVWXYZ''"
          using lower_char_not_upper [of x] by simp
      qed
      have l4: "get_module_dir u' flag = get_module_dir u flag"
        unfolding d l ..
      show "lower u flag = map lower_char flag \<and>
         length (lower u flag) = length flag \<and>
         (\<forall>c \<in> set (lower u flag). c \<notin> set ''ABCDEFGHIJKLMNOPQRSTUVWXYZ'') \<and>
         get_module_dir u' flag = get_module_dir u flag"
        by (rule conjI [OF l1 conjI [OF l2 conjI [OF l3 l4]]])
    qed
    show "get_module_dir u flag = ''modules/'' @ remove_underscores (lower u flag) \<and>
      CHR ''_'' \<notin> set (remove_underscores (lower u flag)) \<and>
      (\<not> is_ascii flag \<longrightarrow> lower u flag = str_lower u flag) \<and>
      (is_ascii flag \<longrightarrow>
         lower u flag = map lower_char flag \<and>
         length (lower u flag) = length flag \<and>
         (\<forall>c \<in> set (lower u flag). c \<notin> set ''ABCDEFGHIJKLMNOPQRSTUVWXYZ'') \<and>
         get_module_dir u' flag = get_module_dir u flag)"
      by (rule conjI [OF d conjI [OF no_underscore_left conjI [OF o i]]])
  qed
  show ?thesis by (rule conjI [OF a conjI [OF b c]])
qed

theorem get_module_dir_cases_witness:
  "prefix ''CUSTOM_MUTATOR_'' ''CUSTOM_MUTATOR_FOO'' \<and>
   get_module_dir example_tables ''CUSTOM_MUTATOR_FOO'' = ''custommutator'' \<and>
   get_module_dir example_tables ''BITCOIN_CORE'' = ''modules/bitcoin'' \<and>
   \<not> prefix ''CUSTOM_MUTATOR_'' ''RUST_BITCOIN'' \<and> ''RUST_BITCOIN'' \<noteq> ''BITCOIN_CORE'' \<and>
   is_ascii ''RUST_BITCOIN'' \<and>
   get_module_dir example_tables ''RUST_BITCOIN'' = ''modules/rustbitcoin'' \<and>
   get_module_dir \<lparr>str_lower = (\<lambda>s. []), str_split = (\<lambda>s. [])\<rparr> ''RUST_BITCOIN''
     = ''modules/rustbitcoin'' \<and>
   \<not> is_ascii [CHR 0xC3, CHR 0x84, CHR ''_'', CHR ''B''] \<and>
   get_module_dir example_tables [CHR 0xC3, CHR 0x84, CHR ''_'', CHR ''B'']
     = ''modules/'' @ [CHR 0xC3, CHR 0xA4, CHR ''b'']"
proof -
  let ?u = "example_tables"
  let ?v = "\<lparr>str_lower = (\<lambda>s. []), str_split = (\<lambda>s. [])\<rparr>"
  let ?x = "[CHR 0xC3, CHR 0x84, CHR ''_'', CHR ''B'']"
  have a: "prefix ''CUSTOM_MUTATOR_'' ''CUSTOM_MUTATOR_FOO''" by simp
  have b1: "\<not> prefix ''CUSTOM_MUTATOR_'' ''RUST_BITCOIN''" by simp
  have b2: "''RUST_BITCOIN'' \<noteq> ''BITCOIN_CORE''" by simp
  have asc: "is_ascii ''RUST_BITCOIN''" by (simp add: is_ascii_def)
  have l: "remove_underscores (map lower_char ''RUST_BITCOIN'') = ''rustbitcoin''" by code_simp
  have x1: "\<not> prefix ''CUSTOM_MUTATOR_'' ?x" by simp
  have x2: "?x \<noteq> ''BITCOIN_CORE''" by simp
  have x3: "\<not> is_ascii ?x" by (simp add: is_ascii_def)
  have x4: "str_lower ?u ?x = [CHR 0xC3, CHR 0xA4, CHR ''_'', CHR ''b'']"
    by (simp add: example_tables_def)
  note 1 = get_module_dir_cases [of "''CUSTOM_MUTATOR_FOO''" ?u, THEN conjunct1, THEN mp, OF a]
  note 2 = get_module_dir_cases [of "''BITCOIN_CORE''" ?u, THEN conjunct2, THEN conjunct1,
      THEN mp, OF refl]
  note t = get_module_dir_cases [of "''RUST_BITCOIN''" ?u ?v, THEN conjunct2, THEN conjunct2,
      THEN mp, OF conjI [OF b1 b2]]
  note ta = t [THEN conjunct2, THEN conjunct2, THEN conjunct2, THEN mp, OF asc]
  have 3: "get_module_dir ?u ''RUST_BITCOIN'' = ''modules/rustbitcoin''"
    unfolding t [THEN conjunct1] ta [THEN conjunct1] l by simp
  have 4: "get_module_dir ?v ''RUST_BITCOIN'' = ''modules/rustbitcoin''"
    unfolding ta [THEN conjunct2, THEN conjunct2, THEN conjunct2] by (rule 3)
  note s = get_module_dir_cases [of ?x ?u, THEN conjunct2, THEN conjunct2,
      THEN mp, OF conjI [OF x1 x2]]
  note sl = s [THEN conjunct2, THEN conjunct2, THEN conjunct1, THEN mp, OF x3]
  have 5: "get_module_dir ?u ?x = ''modules/'' @ [CHR 0xC3, CHR 0xA4, CHR ''b'']"
    unfolding s [THEN conjunct1] sl x4 by (simp add: remove_underscores_def)
  show ?thesis
    by (rule conjI [OF a conjI [OF 1 conjI [OF 2 conjI [OF b1 conjI [OF b2 conjI [OF asc
          conjI [OF 3 conjI [OF 4 conjI [OF x3 5]]]]]]]]])
qed

section \<open>Properties of the partition\<close>


lemma in_pair_other: "x \<in> {a, b} \<Longrightarrow> x \<noteq> a \<Longrightarrow> x = b"
  by blast

lemma forced_sequential_iff:
  "should_build_sequentially f \<longleftrightarrow>
     f \<in> {''SECP256K1'', ''BITCOINJ'', ''LIGHTNING_KMP''} \<or> prefix ''CUSTOM_MUTATOR_'' f"
  by (simp add: should_build_sequentially_def startswith_prefix)

lemma pool_main_cases:
  "pool (main env w) = [] \<or>
   (\<exists>c j. CXXFLAGS env = Some c \<and> PARALLEL_JOBS env = Some j \<and>
      pool (main env w) = map (\<lambda>f. (f, build_module w f (j \<noteq> 1))) (parallel (get_flags c)))"
  by (simp add: main_def single_thread_def Let_def split: option.splits)

lemma seq_thread_main_cases:
  "seq_thread (main env w) = None \<or>
   (\<exists>c j. CXXFLAGS env = Some c \<and> PARALLEL_JOBS env = Some j \<and>
      seq_thread (main env w) = Some (run_sequential w (sequential (get_flags c)) (j \<noteq> 1)))"
  by (simp add: main_def single_thread_def Let_def split: option.splits)

text \<open>
  Claim C5. The scheduler splits the requested identifiers in two lists. The sequential
  list holds, in their original order, exactly the identifiers that are one of
  \<^verbatim>\<open>SECP256K1\<close>, \<^verbatim>\<open>BITCOINJ\<close>, \<^verbatim>\<open>LIGHTNING_KMP\<close> or start with
  \<^verbatim>\<open>CUSTOM_MUTATOR_\<close>; the parallel list holds every other identifier. The two lists
  share no identifier and lose none, and no run of \<^verbatim>\<open>main\<close> submits a
  forced-sequential module to the pool: the thread of the sequential group and the pool
  get these two lists of the parsed flags.
\<close>

theorem partition_forced_sequential:
  "sequential flags =
     filter (\<lambda>f. f \<in> {''SECP256K1'', ''BITCOINJ'', ''LIGHTNING_KMP''}
                  \<or> prefix ''CUSTOM_MUTATOR_'' f) flags \<and>
   parallel flags =
     filter (\<lambda>f. \<not> (f \<in> {''SECP256K1'', ''BITCOINJ'', ''LIGHTNING_KMP''}
                     \<or> prefix ''CUSTOM_MUTATOR_'' f)) flags \<and>
   subseq (sequential flags) flags \<and> subseq (parallel flags) flags \<and>
   length (sequential flags) + length (parallel flags) = length flags \<and>
   set (sequential flags) \<union> set (parallel flags) = set flags \<and>
   set (sequential flags) \<inter> set (parallel flags) = {} \<and>
   (\<forall>f \<in> set (map fst (pool (main env w))).
      f \<notin> {''SECP256K1'', ''BITCOINJ'', ''LIGHTNING_KMP''} \<and> \<not> prefix ''CUSTOM_MUTATOR_'' f) \<and>
   (\<forall>c j. CXXFLAGS env = Some c \<and> PARALLEL_JOBS env = Some j \<longrightarrow>
      seq_thread (main env w) \<in>
        {None, Some (run_sequential w (sequential (get_flags c)) (j \<noteq> 1))} \<and>
      map fst (pool (main env w)) \<in> {[], parallel (get_flags c)})"
proof -
  have s: "sequential flags =
     filter (\<lambda>f. f \<in> {''SECP256K1'', ''BITCOINJ'', ''LIGHTNING_KMP''}
                  \<or> prefix ''CUSTOM_MUTATOR_'' f) flags"
    unfolding sequential_def by (rule filter_cong) (simp_all only: forced_sequential_iff)
  have p: "parallel flags =
     filter (\<lambda>f. \<not> (f \<in> {''SECP256K1'', ''BITCOINJ'', ''LIGHTNING_KMP''}
                     \<or> prefix ''CUSTOM_MUTATOR_'' f)) flags"
    unfolding parallel_def by (rule filter_cong) (simp_all only: forced_sequential_iff)
  have sub: "subseq (sequential flags) flags \<and> subseq (parallel flags) flags"
    by (simp add: sequential_def parallel_def)
  have len: "length (sequential flags) + length (parallel flags) = length flags"
    unfolding sequential_def parallel_def by (rule sum_length_filter_compl)
  have un: "set (sequential flags) \<union> set (parallel flags) = set flags"
    by (auto simp: sequential_def parallel_def)
  have dis: "set (sequential flags) \<inter> set (parallel flags) = {}"
    by (auto simp: sequential_def parallel_def)
  have par_free: "\<forall>f \<in> set (parallel fs). \<not> should_build_sequentially f" for fs
    by (simp add: parallel_def)
  have pl: "\<forall>f \<in> set (map fst (pool (main env w))).
      f \<notin> {''SECP256K1'', ''BITCOINJ'', ''LIGHTNING_KMP''} \<and> \<not> prefix ''CUSTOM_MUTATOR_'' f"
  proof
    fix f assume f: "f \<in> set (map fst (pool (main env w)))"
    from pool_main_cases [of env w] f obtain c where "f \<in> set (parallel (get_flags c))"
      by (auto simp: comp_def)
    with par_free have "\<not> should_build_sequentially f" by blast
    then have "\<not> (f \<in> {''SECP256K1'', ''BITCOINJ'', ''LIGHTNING_KMP''} \<or> prefix ''CUSTOM_MUTATOR_'' f)"
      unfolding forced_sequential_iff .
    then show "f \<notin> {''SECP256K1'', ''BITCOINJ'', ''LIGHTNING_KMP''} \<and> \<not> prefix ''CUSTOM_MUTATOR_'' f"
      by (rule_tac conjI) blast+
  qed
  have thr: "\<forall>c j. CXXFLAGS env = Some c \<and> PARALLEL_JOBS env = Some j \<longrightarrow>
      seq_thread (main env w) \<in>
        {None, Some (run_sequential w (sequential (get_flags c)) (j \<noteq> 1))} \<and>
      map fst (pool (main env w)) \<in> {[], parallel (get_flags c)}"
  proof (intro allI impI)
    fix c j assume h: "CXXFLAGS env = Some c \<and> PARALLEL_JOBS env = Some j"
    from seq_thread_main_cases [of env w] h
    have a: "seq_thread (main env w) \<in>
        {None, Some (run_sequential w (sequential (get_flags c)) (j \<noteq> 1))}"
      by auto
    from pool_main_cases [of env w] h
    have b: "map fst (pool (main env w)) \<in> {[], parallel (get_flags c)}"
      by (auto simp: comp_def)
    from a b show "seq_thread (main env w) \<in>
        {None, Some (run_sequential w (sequential (get_flags c)) (j \<noteq> 1))} \<and>
      map fst (pool (main env w)) \<in> {[], parallel (get_flags c)}" ..
  qed
  from sub have sub1: "subseq (sequential flags) flags" and sub2: "subseq (parallel flags) flags"
    by simp_all
  note rest = conjI [OF dis conjI [OF pl thr]]
  note rest = conjI [OF sub1 conjI [OF sub2 conjI [OF len conjI [OF un rest]]]]
  show ?thesis
    by (rule conjI [OF s conjI [OF p rest]])
qed

theorem partition_forced_sequential_witness:
  "sequential [''LDK'', ''SECP256K1'', ''CUSTOM_MUTATOR_X'', ''LND'', ''BITCOINJ'']
     = [''SECP256K1'', ''CUSTOM_MUTATOR_X'', ''BITCOINJ''] \<and>
   parallel [''LDK'', ''SECP256K1'', ''CUSTOM_MUTATOR_X'', ''LND'', ''BITCOINJ'']
     = [''LDK'', ''LND''] \<and>
   map fst (pool (main (only_cxxflags ''-DLDK -DSECP256K1'') all_succeed)) = [''LDK''] \<and>
   ''LDK'' \<notin> {''SECP256K1'', ''BITCOINJ'', ''LIGHTNING_KMP''} \<and>
   \<not> prefix ''CUSTOM_MUTATOR_'' ''LDK'' \<and>
   CXXFLAGS (only_cxxflags ''-DLDK -DSECP256K1'') = Some ''-DLDK -DSECP256K1'' \<and>
   PARALLEL_JOBS (only_cxxflags ''-DLDK -DSECP256K1'') = Some 0 \<and>
   seq_thread (main (only_cxxflags ''-DLDK -DSECP256K1'') all_succeed)
     = Some (run_sequential all_succeed (sequential (get_flags ''-DLDK -DSECP256K1'')) (0 \<noteq> (1::int)))"
proof -
  let ?fs = "[''LDK'', ''SECP256K1'', ''CUSTOM_MUTATOR_X'', ''LND'', ''BITCOINJ'']"
  let ?env = "only_cxxflags ''-DLDK -DSECP256K1''"
  note t = partition_forced_sequential [of ?fs ?env all_succeed]
  from t [THEN conjunct1]
  have "sequential ?fs =
     filter (\<lambda>f. f \<in> {''SECP256K1'', ''BITCOINJ'', ''LIGHTNING_KMP''}
                  \<or> prefix ''CUSTOM_MUTATOR_'' f) ?fs" .
  then have r1: "sequential ?fs = [''SECP256K1'', ''CUSTOM_MUTATOR_X'', ''BITCOINJ'']" by simp
  from t [THEN conjunct2, THEN conjunct1]
  have "parallel ?fs =
     filter (\<lambda>f. \<not> (f \<in> {''SECP256K1'', ''BITCOINJ'', ''LIGHTNING_KMP''}
                     \<or> prefix ''CUSTOM_MUTATOR_'' f)) ?fs" .
  then have r2: "parallel ?fs = [''LDK'', ''LND'']" by simp
  have p: "map fst (pool (main ?env all_succeed)) = [''LDK'']" by code_simp
  then have mem: "''LDK'' \<in> set (map fst (pool (main ?env all_succeed)))" by simp
  note t7 = t [THEN conjunct2, THEN conjunct2, THEN conjunct2, THEN conjunct2, THEN conjunct2,
      THEN conjunct2, THEN conjunct2]
  from t7 [THEN conjunct1, THEN bspec, OF mem]
  have r3: "''LDK'' \<notin> {''SECP256K1'', ''BITCOINJ'', ''LIGHTNING_KMP''} \<and>
      \<not> prefix ''CUSTOM_MUTATOR_'' ''LDK''" .
  have e1: "CXXFLAGS ?env = Some ''-DLDK -DSECP256K1''" by (simp add: only_cxxflags_def)
  have e2: "PARALLEL_JOBS ?env = Some 0" by (simp add: only_cxxflags_def)
  have started: "seq_thread (main ?env all_succeed) \<noteq> None" by code_simp
  from t7 [THEN conjunct2, THEN spec, THEN spec, THEN mp, OF conjI [OF e1 e2], THEN conjunct1]
  have "seq_thread (main ?env all_succeed) \<in>
      {None, Some (run_sequential all_succeed (sequential (get_flags ''-DLDK -DSECP256K1'')) (0 \<noteq> (1::int)))}" .
  then have r4: "seq_thread (main ?env all_succeed)
     = Some (run_sequential all_succeed (sequential (get_flags ''-DLDK -DSECP256K1'')) (0 \<noteq> (1::int)))"
    using started by (rule in_pair_other)
  show ?thesis
    by (rule conjI [OF r1 conjI [OF r2 conjI [OF p conjI [OF r3 [THEN conjunct1]
          conjI [OF r3 [THEN conjunct2] conjI [OF e1 conjI [OF e2 r4]]]]]]])
qed

section \<open>Properties of flag parsing\<close>

lemma has_match_Cons: "has_match s \<Longrightarrow> has_match (c # s)"
  by (cases s rule: has_match.cases) auto

lemma match_at_SomeD:
  "match_at s = Some (g, r) \<Longrightarrow>
     \<exists>t. s = CHR ''-'' # CHR ''D'' # t \<and> takeWhile is_ident_char t \<noteq> [] \<and>
         g = takeWhile is_ident_char t \<and> r = dropWhile is_ident_char t"
  by (auto simp: match_at_def split: list.splits if_splits)

lemma match_at_has_match: "match_at s = Some x \<Longrightarrow> has_match s"
proof -
  assume m: "match_at s = Some x"
  obtain g r where x: "x = (g, r)" by (cases x)
  from match_at_SomeD [OF m [unfolded x]] obtain t
    where s: "s = CHR ''-'' # CHR ''D'' # t" and t: "takeWhile is_ident_char t \<noteq> []"
    by blast
  from t obtain c t' where "t = c # t'" and "is_ident_char c"
    by (cases t) (auto split: if_splits)
  with s show ?thesis by simp
qed

lemma get_flags_Nil: "get_flags [] = []"
  by (simp add: get_flags.simps match_at_def)

lemma get_flags_skip: "match_at (c # cs) = None \<Longrightarrow> get_flags (c # cs) = get_flags cs"
  by (simp add: get_flags.simps [of "c # cs"])

lemma get_flags_take:
  "match_at s = Some (g, r) \<Longrightarrow> get_flags s = g # get_flags r"
  by (simp add: get_flags.simps [of s])

lemma get_flags_no_match: "\<not> has_match s \<Longrightarrow> get_flags s = []"
proof (induction s)
  case Nil
  show ?case by (rule get_flags_Nil)
next
  case (Cons c cs)
  from Cons.prems have "\<not> has_match cs" using has_match_Cons by blast
  then have ih: "get_flags cs = []" by (rule Cons.IH)
  from Cons.prems have "match_at (c # cs) = None"
    using match_at_has_match by (cases "match_at (c # cs)") auto
  then show ?case using ih by (simp add: get_flags_skip)
qed

lemma match_at_token:
  assumes "ident \<noteq> []" and "\<forall>c \<in> set ident. is_ident_char c"
    and "rest = [] \<or> \<not> is_ident_char (hd rest)"
  shows "match_at (''-D'' @ ident @ rest) = Some (ident, rest)"
proof -
  from assms(3) have r: "takeWhile is_ident_char rest = []" "dropWhile is_ident_char rest = rest"
    by (cases rest; auto)+
  from assms(2) have "takeWhile is_ident_char (ident @ rest) = ident"
    "dropWhile is_ident_char (ident @ rest) = rest"
    using r by (simp_all add: takeWhile_append2 dropWhile_append2)
  with assms(1) show ?thesis by (simp add: match_at_def)
qed

lemma dash_not_ident: "\<not> is_ident_char CHR ''-''"
  by (simp add: is_ident_char_def)

lemma match_at_junk:
  assumes "\<not> has_match (c # junk)"
  shows "match_at (c # junk @ ''-D'' @ tail) = None"
proof (cases "match_at (c # junk @ ''-D'' @ tail)")
  case None
  then show ?thesis .
next
  case (Some x)
  obtain g r where x: "x = (g, r)" by (cases x)
  from match_at_SomeD [OF Some [unfolded x]] obtain t
    where s: "c # junk @ ''-D'' @ tail = CHR ''-'' # CHR ''D'' # t"
      and t: "takeWhile is_ident_char t \<noteq> []"
    by blast
  from t obtain e t' where te: "t = e # t'" and e: "is_ident_char e"
    by (cases t) (auto split: if_splits)
  show ?thesis
  proof (cases junk)
    case Nil
    with s show ?thesis by simp
  next
    case (Cons d junk')
    show ?thesis
    proof (cases junk')
      case Nil
      with Cons s te e dash_not_ident show ?thesis by auto
    next
      case (Cons e' junk'')
      with \<open>junk = d # junk'\<close> s te e have "has_match (c # junk)" by auto
      with assms show ?thesis by blast
    qed
  qed
qed

lemma get_flags_token:
  assumes "\<not> has_match junk" and "ident \<noteq> []" and "\<forall>c \<in> set ident. is_ident_char c"
    and "rest = [] \<or> \<not> is_ident_char (hd rest)"
  shows "get_flags (junk @ ''-D'' @ ident @ rest) = ident # get_flags rest"
  using assms(1)
proof (induction junk)
  case Nil
  from match_at_token [OF assms(2-4)] show ?case
    by (simp add: get_flags_take)
next
  case (Cons c junk)
  from Cons.prems have "\<not> has_match junk" using has_match_Cons by blast
  then have ih: "get_flags (junk @ ''-D'' @ ident @ rest) = ident # get_flags rest"
    by (rule Cons.IH)
  from match_at_junk [OF Cons.prems, of "ident @ rest"]
  have "get_flags (c # junk @ ''-D'' @ ident @ rest) = get_flags (junk @ ''-D'' @ ident @ rest)"
    by (rule get_flags_skip)
  with ih show ?case by simp
qed

lemma get_flags_idents:
  "g \<in> set (get_flags s) \<Longrightarrow> g \<noteq> [] \<and> (\<forall>c \<in> set g. is_ident_char c)"
proof (induction s rule: get_flags.induct)
  case (1 s)
  show ?case
  proof (cases "match_at s")
    case None
    show ?thesis
    proof (cases s)
      case Nil
      with "1.prems" show ?thesis by (simp add: get_flags_Nil)
    next
      case (Cons c cs)
      with None "1.prems" have "g \<in> set (get_flags cs)" by (simp add: get_flags_skip)
      with "1.IH"(1) [OF None Cons] show ?thesis .
    qed
  next
    case (Some x)
    obtain h r where x: "x = (h, r)" by (cases x)
    from Some x have m: "match_at s = Some (h, r)" by simp
    from match_at_SomeD [OF m] obtain t
      where h: "h = takeWhile is_ident_char t" and ne: "takeWhile is_ident_char t \<noteq> []"
      by blast
    from "1.prems" m have "g = h \<or> g \<in> set (get_flags r)" by (simp add: get_flags_take)
    then show ?thesis
    proof
      assume "g = h"
      with h ne show ?thesis by (auto dest: set_takeWhileD)
    next
      assume "g \<in> set (get_flags r)"
      with "1.IH"(2) [OF Some x [symmetric]] show ?thesis .
    qed
  qed
qed


lemma get_flags_example: "get_flags ''-DLDK -DLND -DLDK'' = [''LDK'', ''LND'', ''LDK'']"
  by code_simp

text \<open>
  Claim C3, as the code has it. \<^verbatim>\<open>get_flags\<close> returns the identifier of every match of
  \<^verbatim>\<open>-D<IDENTIFIER>\<close>, in the order of appearance, and keeps duplicates: a text with no
  match gives the empty list; a text that begins with matchless text, then \<^verbatim>\<open>-D\<close> and
  a maximal run of identifier characters, gives that identifier in front of the flags of
  the remaining text; every identifier returned is a non-empty run of identifier
  characters; and \<^verbatim>\<open>-DLDK -DLND -DLDK\<close> gives \<^verbatim>\<open>[LDK, LND, LDK]\<close>.
\<close>

theorem get_flags_every_match:
  "(\<not> has_match s \<longrightarrow> get_flags s = []) \<and>
   (\<not> has_match junk \<and> ident \<noteq> [] \<and> (\<forall>c \<in> set ident. is_ident_char c) \<and>
    (rest = [] \<or> \<not> is_ident_char (hd rest))
      \<longrightarrow> get_flags (junk @ ''-D'' @ ident @ rest) = ident # get_flags rest) \<and>
   (\<forall>g \<in> set (get_flags s). g \<noteq> [] \<and> (\<forall>c \<in> set g. is_ident_char c)) \<and>
   get_flags ''-DLDK -DLND -DLDK'' = [''LDK'', ''LND'', ''LDK'']"
proof -
  have a: "\<not> has_match s \<longrightarrow> get_flags s = []"
    using get_flags_no_match by blast
  have b: "\<not> has_match junk \<and> ident \<noteq> [] \<and> (\<forall>c \<in> set ident. is_ident_char c) \<and>
    (rest = [] \<or> \<not> is_ident_char (hd rest))
      \<longrightarrow> get_flags (junk @ ''-D'' @ ident @ rest) = ident # get_flags rest"
    using get_flags_token [of junk ident rest] by blast
  have c: "\<forall>g \<in> set (get_flags s). g \<noteq> [] \<and> (\<forall>c \<in> set g. is_ident_char c)"
    using get_flags_idents [of _ s] by blast
  show ?thesis
    by (rule conjI [OF a conjI [OF b conjI [OF c get_flags_example]]])
qed

theorem get_flags_every_match_witness:
  "\<not> has_match ''-O2 -Wall'' \<and> get_flags ''-O2 -Wall'' = [] \<and>
   \<not> has_match ''-O2 '' \<and> list_all is_ident_char ''LDK'' \<and>
   \<not> is_ident_char (hd '' -DLND x'') \<and>
   get_flags ''-O2 -DLDK -DLND x'' = ''LDK'' # get_flags '' -DLND x'' \<and>
   ''LND'' \<in> set (get_flags ''-DLDK -DLND -DLDK'') \<and> ''LND'' \<noteq> [] \<and>
   list_all is_ident_char ''LND''"
proof -
  have h1: "\<not> has_match ''-O2 -Wall''" by (simp add: is_ident_char_def)
  have h2: "\<not> has_match ''-O2 ''" by (simp add: is_ident_char_def)
  have h3': "list_all is_ident_char ''LDK''" by (simp add: is_ident_char_def)
  then have h3: "\<forall>c \<in> set ''LDK''. is_ident_char c" by (simp only: list_all_iff)
  have h4: "\<not> is_ident_char (hd '' -DLND x'')" by (simp add: is_ident_char_def)
  from get_flags_every_match [of "''-O2 -Wall''"] h1
  have r1: "get_flags ''-O2 -Wall'' = []" by blast
  from get_flags_every_match [of _ "''-O2 ''" "''LDK''" "'' -DLND x''"] h2 h3 h4
  have "get_flags (''-O2 '' @ ''-D'' @ ''LDK'' @ '' -DLND x'') = ''LDK'' # get_flags '' -DLND x''"
    by blast
  then have r2: "get_flags ''-O2 -DLDK -DLND x'' = ''LDK'' # get_flags '' -DLND x''"
    by simp
  note t = get_flags_every_match [of "''-DLDK -DLND -DLDK''" "[]" "[]" "[]"]
  have m: "''LND'' \<in> set (get_flags ''-DLDK -DLND -DLDK'')"
    unfolding t [THEN conjunct2, THEN conjunct2, THEN conjunct2] by simp
  from t [THEN conjunct2, THEN conjunct2, THEN conjunct1, THEN bspec, OF m]
  have r3: "''LND'' \<noteq> [] \<and> (\<forall>c \<in> set ''LND''. is_ident_char c)" .
  from r3 [THEN conjunct2] have r4: "list_all is_ident_char ''LND''" by (simp only: list_all_iff)
  show ?thesis
    by (rule conjI [OF h1 conjI [OF r1 conjI [OF h2 conjI [OF h3' conjI [OF h4 conjI [OF r2
          conjI [OF m conjI [OF r3 [THEN conjunct1] r4]]]]]]]])
qed

theorem get_flags_keeps_duplicates:
  "get_flags ''-DLDK -DLND -DLDK'' \<noteq> [''LDK'', ''LND''] \<and>
   \<not> distinct (get_flags ''-DLDK -DLND -DLDK'')"
proof -
  have e: "get_flags ''-DLDK -DLND -DLDK'' = [''LDK'', ''LND'', ''LDK'']"
    by code_simp
  show ?thesis unfolding e by simp
qed

section \<open>Properties of effects\<close>

lemma fst_andthen: "fst (andthen a b) = (if snd a = None then fst a @ fst b else fst a)"
  by (auto simp: andthen_def split: option.splits)

lemma snd_andthen: "snd (andthen a b) = (if snd a = None then snd b else snd a)"
  by (auto simp: andthen_def split: option.splits)

lemma andthen_skip_left: "andthen skip b = b"
  by (simp add: andthen_def skip_def)

lemma effect_simps:
  "fst skip = []" "snd skip = None"
  "fst (emit e) = [e]" "snd (emit e) = None"
  "fst (raise x) = []" "snd (raise x) = Some x"
  "fst (die msg) = [Stderr (''Error: '' @ msg)]" "snd (die msg) = Some (SystemExit 1)"
  by (simp_all add: skip_def emit_def raise_def die_def andthen_def)

lemma subprocesses_append: "subprocesses (xs @ ys) = subprocesses xs @ subprocesses ys"
  by (induction xs rule: subprocesses.induct) simp_all

lemma run_subprocesses: "subprocesses (fst (run w cmd cwd quiet)) = [(cwd, cmd)]"
  by (simp add: run_def fst_andthen snd_andthen effect_simps subprocesses_append
      split: option.splits)

lemma run_raises:
  "snd (run w cmd cwd quiet) =
     (case subprocess_run w cwd cmd of
        None \<Rightarrow> Some PyException
      | Some proc \<Rightarrow> if returncode proc \<noteq> 0 then Some (SystemExit 1) else None)"
  by (simp add: run_def fst_andthen snd_andthen effect_simps split: option.splits)

lemma execute_in_dir_subprocesses:
  "subprocesses (fst (execute_in_dir w d cmd quiet)) = (if is_dir w d then [(Some d, cmd)] else [])"
  by (simp add: execute_in_dir_def fst_andthen snd_andthen effect_simps andthen_skip_left
      run_subprocesses)

lemma execute_in_dir_raises:
  "snd (execute_in_dir w d cmd quiet) =
     (if is_dir w d then snd (run w cmd (Some d) quiet) else Some (SystemExit 1))"
  by (simp add: execute_in_dir_def snd_andthen effect_simps)

lemma build_module_subprocesses:
  "subprocesses (fst (build_module w flag quiet)) =
     (if is_dir w (get_module_dir (tables w) flag)
      then [(Some (get_module_dir (tables w) flag),
             if needs_rust_nightly flag then ''rustup default nightly && make cargo && make''
             else ''make'')]
      else [])"
  by (simp add: build_module_def Let_def fst_andthen snd_andthen effect_simps
      subprocesses_append execute_in_dir_subprocesses)

lemma build_module_raises:
  "snd (build_module w flag quiet) =
     snd (execute_in_dir w (get_module_dir (tables w) flag)
            (if needs_rust_nightly flag then ''rustup default nightly && make cargo && make''
             else ''make'') quiet)"
  by (simp add: build_module_def Let_def snd_andthen effect_simps)

lemma sh_and_list_nightly:
  "sh_and_list ''rustup default nightly && make cargo && make''
     = [''rustup default nightly'', ''make cargo'', ''make'']"
  by (simp add: sh_and_list_def)

lemma sh_and_list_make: "sh_and_list ''make'' = [''make'']"
  by (simp add: sh_and_list_def)


section \<open>Properties of the module builder\<close>

text \<open>
  Claim C6. When the directory of the module exists, \<^verbatim>\<open>build_module\<close> runs one command
  line there. For an identifier in \<^verbatim>\<open>{RUST_BITCOIN, RUST_MINISCRIPT, LDK,
  TINY_MINISCRIPT, RUSTBITCOINKERNEL}\<close> it is the AND-list of the three steps
  \<^verbatim>\<open>rustup default nightly\<close>, \<^verbatim>\<open>make cargo\<close>, \<^verbatim>\<open>make\<close>, which the shell runs in
  this order up to the first step that fails; for every other identifier it is the single
  step \<^verbatim>\<open>make\<close>. The steps are the three of the pinned toolchain if and only if the
  identifier is in that set, and the build of the module succeeds if and only if the
  command line returns 0.
\<close>

theorem build_module_steps:
  "(is_dir w (get_module_dir (tables w) flag) \<longrightarrow>
      (flag \<in> {''RUST_BITCOIN'', ''RUST_MINISCRIPT'', ''LDK'', ''TINY_MINISCRIPT'',
                ''RUSTBITCOINKERNEL''} \<longrightarrow>
         subprocesses (fst (build_module w flag quiet)) =
           [(Some (get_module_dir (tables w) flag), ''rustup default nightly && make cargo && make'')]) \<and>
      (flag \<notin> {''RUST_BITCOIN'', ''RUST_MINISCRIPT'', ''LDK'', ''TINY_MINISCRIPT'',
                ''RUSTBITCOINKERNEL''} \<longrightarrow>
         subprocesses (fst (build_module w flag quiet)) = [(Some (get_module_dir (tables w) flag), ''make'')]) \<and>
      (concat (map (\<lambda>(cwd, cmd). sh_and_list cmd) (subprocesses (fst (build_module w flag quiet))))
         = [''rustup default nightly'', ''make cargo'', ''make'']
       \<longleftrightarrow> flag \<in> {''RUST_BITCOIN'', ''RUST_MINISCRIPT'', ''LDK'', ''TINY_MINISCRIPT'',
                    ''RUSTBITCOINKERNEL''}) \<and>
      (\<forall>cmd proc. subprocesses (fst (build_module w flag quiet)) = [(Some (get_module_dir (tables w) flag), cmd)]
           \<and> subprocess_run w (Some (get_module_dir (tables w) flag)) cmd = Some proc \<longrightarrow>
         (snd (build_module w flag quiet) = None \<longleftrightarrow> returncode proc = 0))) \<and>
   (\<not> is_dir w (get_module_dir (tables w) flag) \<longrightarrow>
      subprocesses (fst (build_module w flag quiet)) = [] \<and>
      snd (build_module w flag quiet) = Some (SystemExit 1)) \<and>
   sh_and_list ''rustup default nightly && make cargo && make''
     = [''rustup default nightly'', ''make cargo'', ''make''] \<and>
   sh_and_list ''make'' = [''make''] \<and>
   sh_executed ok [a, b, c] = (if \<not> ok a then [a] else if \<not> ok b then [a, b] else [a, b, c])"
proof -
  let ?S = "{''RUST_BITCOIN'', ''RUST_MINISCRIPT'', ''LDK'', ''TINY_MINISCRIPT'',
             ''RUSTBITCOINKERNEL''}"
  let ?dir = "get_module_dir (tables w) flag"
  let ?cmds = "subprocesses (fst (build_module w flag quiet))"
  have n: "needs_rust_nightly flag \<longleftrightarrow> flag \<in> ?S"
    by (simp add: needs_rust_nightly_def)
  have three: "is_dir w ?dir \<Longrightarrow> flag \<in> ?S \<Longrightarrow>
      ?cmds = [(Some ?dir, ''rustup default nightly && make cargo && make'')]"
    using n by (simp only: build_module_subprocesses if_True)
  have one: "is_dir w ?dir \<Longrightarrow> flag \<notin> ?S \<Longrightarrow> ?cmds = [(Some ?dir, ''make'')]"
    using n by (simp only: build_module_subprocesses if_True if_False)
  have iff: "is_dir w ?dir \<Longrightarrow>
      concat (map (\<lambda>(cwd, cmd). sh_and_list cmd) ?cmds)
         = [''rustup default nightly'', ''make cargo'', ''make''] \<longleftrightarrow> flag \<in> ?S"
  proof (cases "flag \<in> ?S")
    case True
    assume "is_dir w ?dir"
    from three [OF this True] True show ?thesis
      by (simp only: list.map prod.case concat.simps append_Nil2 sh_and_list_nightly) simp
  next
    case False
    assume "is_dir w ?dir"
    from one [OF this False] False show ?thesis
      by (simp only: list.map prod.case concat.simps append_Nil2 sh_and_list_make) simp
  qed
  have status: "snd (build_module w flag quiet) = None \<longleftrightarrow> returncode proc = 0"
    if d: "is_dir w ?dir" and c: "?cmds = [(Some ?dir, cmd)]"
      and r: "subprocess_run w (Some ?dir) cmd = Some proc" for cmd proc
  proof -
    from c d have "cmd = (if needs_rust_nightly flag
        then ''rustup default nightly && make cargo && make'' else ''make'')"
      by (simp only: build_module_subprocesses if_True list.inject prod.inject)
    then have "snd (build_module w flag quiet) = snd (run w cmd (Some ?dir) quiet)"
      using d by (simp only: build_module_raises execute_in_dir_raises if_True)
    with r show ?thesis by (simp add: run_raises)
  qed
  have missing: "\<not> is_dir w ?dir \<Longrightarrow>
      ?cmds = [] \<and> snd (build_module w flag quiet) = Some (SystemExit 1)"
    by (simp add: build_module_subprocesses build_module_raises execute_in_dir_raises)
  have sh: "sh_executed ok [a, b, c] = (if \<not> ok a then [a] else if \<not> ok b then [a, b] else [a, b, c])"
    by simp
  have present: "is_dir w ?dir \<longrightarrow>
      (flag \<in> ?S \<longrightarrow> ?cmds = [(Some ?dir, ''rustup default nightly && make cargo && make'')]) \<and>
      (flag \<notin> ?S \<longrightarrow> ?cmds = [(Some ?dir, ''make'')]) \<and>
      (concat (map (\<lambda>(cwd, cmd). sh_and_list cmd) ?cmds)
         = [''rustup default nightly'', ''make cargo'', ''make''] \<longleftrightarrow> flag \<in> ?S) \<and>
      (\<forall>cmd proc. ?cmds = [(Some ?dir, cmd)] \<and> subprocess_run w (Some ?dir) cmd = Some proc \<longrightarrow>
         (snd (build_module w flag quiet) = None \<longleftrightarrow> returncode proc = 0))"
  proof
    assume d: "is_dir w ?dir"
    have 1: "flag \<in> ?S \<longrightarrow> ?cmds = [(Some ?dir, ''rustup default nightly && make cargo && make'')]"
      using three [OF d] by (rule impI)
    have 2: "flag \<notin> ?S \<longrightarrow> ?cmds = [(Some ?dir, ''make'')]"
      using one [OF d] by (rule impI)
    have 4: "\<forall>cmd proc. ?cmds = [(Some ?dir, cmd)] \<and> subprocess_run w (Some ?dir) cmd = Some proc \<longrightarrow>
         (snd (build_module w flag quiet) = None \<longleftrightarrow> returncode proc = 0)"
    proof (intro allI impI)
      fix cmd proc
      assume "?cmds = [(Some ?dir, cmd)] \<and> subprocess_run w (Some ?dir) cmd = Some proc"
      then show "snd (build_module w flag quiet) = None \<longleftrightarrow> returncode proc = 0"
        using status [OF d] by (elim conjE)
    qed
    show "(flag \<in> ?S \<longrightarrow> ?cmds = [(Some ?dir, ''rustup default nightly && make cargo && make'')]) \<and>
      (flag \<notin> ?S \<longrightarrow> ?cmds = [(Some ?dir, ''make'')]) \<and>
      (concat (map (\<lambda>(cwd, cmd). sh_and_list cmd) ?cmds)
         = [''rustup default nightly'', ''make cargo'', ''make''] \<longleftrightarrow> flag \<in> ?S) \<and>
      (\<forall>cmd proc. ?cmds = [(Some ?dir, cmd)] \<and> subprocess_run w (Some ?dir) cmd = Some proc \<longrightarrow>
         (snd (build_module w flag quiet) = None \<longleftrightarrow> returncode proc = 0))"
      by (rule conjI [OF 1 conjI [OF 2 conjI [OF iff [OF d] 4]]])
  qed
  from missing have absent: "\<not> is_dir w ?dir \<longrightarrow>
      ?cmds = [] \<and> snd (build_module w flag quiet) = Some (SystemExit 1)" by blast
  show ?thesis
    by (rule conjI [OF present conjI [OF absent
          conjI [OF sh_and_list_nightly conjI [OF sh_and_list_make sh]]]])
qed


theorem build_module_steps_witness:
  "is_dir all_succeed (get_module_dir (tables all_succeed) ''LDK'') \<and>
   subprocesses (fst (build_module all_succeed ''LDK'' True)) =
     [(Some ''modules/ldk'', ''rustup default nightly && make cargo && make'')] \<and>
   is_dir all_succeed (get_module_dir (tables all_succeed) ''LND'') \<and>
   subprocesses (fst (build_module all_succeed ''LND'' True)) = [(Some ''modules/lnd'', ''make'')] \<and>
   \<not> is_dir (all_succeed\<lparr>is_dir := (\<lambda>d. False)\<rparr>)
       (get_module_dir (tables (all_succeed\<lparr>is_dir := (\<lambda>d. False)\<rparr>)) ''LND'') \<and>
   snd (build_module (all_succeed\<lparr>is_dir := (\<lambda>d. False)\<rparr>) ''LND'' True) = Some (SystemExit 1) \<and>
   snd (build_module (failing_in ''modules/lnd'') ''LND'' True) \<noteq> None"
proof -
  have d1: "is_dir all_succeed (get_module_dir (tables all_succeed) ''LDK'')" by (simp add: all_succeed_def)
  have d2: "is_dir all_succeed (get_module_dir (tables all_succeed) ''LND'')" by (simp add: all_succeed_def)
  have d3: "\<not> is_dir (all_succeed\<lparr>is_dir := (\<lambda>d. False)\<rparr>)
       (get_module_dir (tables (all_succeed\<lparr>is_dir := (\<lambda>d. False)\<rparr>)) ''LND'')" by simp
  have m1: "''LDK'' \<in> {''RUST_BITCOIN'', ''RUST_MINISCRIPT'', ''LDK'', ''TINY_MINISCRIPT'',
                ''RUSTBITCOINKERNEL''}" by simp
  have m2: "''LND'' \<notin> {''RUST_BITCOIN'', ''RUST_MINISCRIPT'', ''LDK'', ''TINY_MINISCRIPT'',
                ''RUSTBITCOINKERNEL''}" by simp
  have g1: "get_module_dir (tables all_succeed) ''LDK'' = ''modules/ldk''" by code_simp
  have g2: "get_module_dir (tables all_succeed) ''LND'' = ''modules/lnd''" by code_simp
  have g4: "get_module_dir (tables (failing_in ''modules/lnd'')) ''LND'' = ''modules/lnd''"
    by code_simp
  note t1 = build_module_steps [of all_succeed "''LDK''" True, THEN conjunct1, THEN mp, OF d1]
  note t2 = build_module_steps [of all_succeed "''LND''" True, THEN conjunct1, THEN mp, OF d2]
  note t3 = build_module_steps [of "all_succeed\<lparr>is_dir := (\<lambda>d. False)\<rparr>" "''LND''" True,
      THEN conjunct2, THEN conjunct1, THEN mp, OF d3]
  from t1 [THEN conjunct1, THEN mp, OF m1]
  have r1: "subprocesses (fst (build_module all_succeed ''LDK'' True)) =
     [(Some ''modules/ldk'', ''rustup default nightly && make cargo && make'')]"
    unfolding g1 .
  from t2 [THEN conjunct2, THEN conjunct1, THEN mp, OF m2]
  have r2: "subprocesses (fst (build_module all_succeed ''LND'' True)) = [(Some ''modules/lnd'', ''make'')]"
    unfolding g2 .
  from t3 have r3: "snd (build_module (all_succeed\<lparr>is_dir := (\<lambda>d. False)\<rparr>) ''LND'' True)
      = Some (SystemExit 1)"
    by (rule conjunct2)
  let ?wf = "failing_in ''modules/lnd''"
  let ?p2 = "\<lparr>returncode = 2, stdout = [], stderr = []\<rparr>"
  have d4: "is_dir ?wf (get_module_dir (tables ?wf) ''LND'')" by (simp add: failing_in_def all_succeed_def)
  note t4 = build_module_steps [of ?wf "''LND''" True, THEN conjunct1, THEN mp, OF d4]
  note c4 = t4 [THEN conjunct2, THEN conjunct1, THEN mp, OF m2]
  have p4: "subprocess_run ?wf (Some (get_module_dir (tables ?wf) ''LND'')) ''make'' = Some ?p2"
    unfolding g4 by (simp add: failing_in_def all_succeed_def)
  from t4 [THEN conjunct2, THEN conjunct2, THEN conjunct2, THEN spec, THEN spec, THEN mp,
      OF conjI [OF c4 p4]]
  have r4: "snd (build_module ?wf ''LND'' True) \<noteq> None" by simp
  show ?thesis
    by (rule conjI [OF d1 conjI [OF r1 conjI [OF d2 conjI [OF r2 conjI [OF d3 conjI [OF r3 r4]]]]]])
qed

section \<open>Properties of the run\<close>

lemma andthen_raised: "snd a \<noteq> None \<Longrightarrow> andthen a b = a"
  by (auto simp: andthen_def split: option.splits)

lemma run_log_head:
  "\<exists>rest. fst (run w cmd None False) = Stdout cmd # Subprocess None cmd # rest"
  by (simp add: run_def fst_andthen snd_andthen effect_simps)

lemma cleaning_log_head:
  "\<exists>rest. fst (cleaning env w c) =
     Stdout ''Cleaning previous builds...'' # Stdout ''make clean''
       # Subprocess None ''make clean'' # rest"
proof -
  obtain r where r: "fst (run w ''make clean'' None False)
      = Stdout ''make clean'' # Subprocess None ''make clean'' # r"
    using run_log_head by blast
  show ?thesis
    by (simp add: cleaning_def fst_andthen snd_andthen effect_simps r)
qed

lemma prefix_andthen: "prefix (fst a) (fst (andthen a b))"
  by (simp add: fst_andthen)

lemma main_thread_after_cleaning:
  assumes "CXXFLAGS env = Some c" and "c \<noteq> []"
  shows "prefix (fst (cleaning env w c)) (fst (main_thread (main env w)))"
  using assms
  by (simp add: main_def single_thread_def Let_def prefix_andthen split: option.splits)

lemma main_log_head:
  assumes "CXXFLAGS env = Some c" and "c \<noteq> []"
  shows "\<exists>rest. fst (main_thread (main env w)) =
     Stdout ''Cleaning previous builds...'' # Stdout ''make clean''
       # Subprocess None ''make clean'' # rest"
proof -
  from main_thread_after_cleaning [OF assms] obtain x
    where x: "fst (main_thread (main env w)) = fst (cleaning env w c) @ x"
    unfolding prefix_def by blast
  from cleaning_log_head obtain r where r: "fst (cleaning env w c) =
     Stdout ''Cleaning previous builds...'' # Stdout ''make clean''
       # Subprocess None ''make clean'' # r" by blast
  show ?thesis unfolding x r by simp
qed

lemma threads_after_cleaning:
  assumes "seq_thread (main env w) \<noteq> None \<or> pool (main env w) \<noteq> []"
  shows "\<exists>c. CXXFLAGS env = Some c \<and> c \<noteq> [] \<and> snd (cleaning env w c) = None"
  using assms
  by (auto simp: main_def single_thread_def Let_def split: option.splits if_splits)

lemma cleaning_make_clean_ok:
  assumes "snd (cleaning env w c) = None"
  shows "\<exists>proc. subprocess_run w None ''make clean'' = Some proc \<and> returncode proc = 0"
proof -
  from assms have "snd (run w ''make clean'' None False) = None"
    by (simp add: cleaning_def snd_andthen effect_simps split: if_splits)
  then show ?thesis
    by (simp add: run_raises split: option.splits if_splits)
qed

lemma cleaning_skip:
  assumes "CLEAN_BUILD env = None \<or> CLEAN_BUILD env = Some []"
    and "subprocess_run w None ''make clean'' = Some proc" and "returncode proc = 0"
  shows "cleaning env w c =
     ([Stdout ''Cleaning previous builds...'', Stdout ''make clean'',
       Subprocess None ''make clean'',
       Stdout ''No CLEAN_BUILD option specified. Skipping clean step.''], None)"
proof -
  from assms(2,3) have r: "run w ''make clean'' None False
      = ([Stdout ''make clean'', Subprocess None ''make clean''], None)"
    by (simp add: run_def andthen_def emit_def skip_def)
  from assms(1) have s: "clean_step env w c
      = emit (Stdout ''No CLEAN_BUILD option specified. Skipping clean step.'')"
    by (auto simp: clean_step_def)
  show ?thesis
    by (simp add: cleaning_def r s andthen_def emit_def)
qed


text \<open>
  Claim C9. Whenever \<^verbatim>\<open>CXXFLAGS\<close> is set and not empty, the first thing the program
  runs is \<^verbatim>\<open>make clean\<close> in the top-level directory (no \<^verbatim>\<open>cwd\<close>): the log of the
  main thread begins with it, in front of the clean mode and of every build. The builds
  run in threads that exist only when this command has returned 0. This holds for every
  value of \<^verbatim>\<open>CLEAN_BUILD\<close>; when it is absent or empty the program still runs the
  command and then prints that it skips the clean step.
\<close>

theorem make_clean_always_first:
  "(CXXFLAGS env = Some c \<and> c \<noteq> [] \<longrightarrow>
      (\<exists>rest. fst (main_thread (main env w)) =
         Stdout ''Cleaning previous builds...'' # Stdout ''make clean''
           # Subprocess None ''make clean'' # rest)) \<and>
   (seq_thread (main env w) \<noteq> None \<or> pool (main env w) \<noteq> [] \<longrightarrow>
      (\<exists>proc. subprocess_run w None ''make clean'' = Some proc \<and> returncode proc = 0)) \<and>
   ((CLEAN_BUILD env = None \<or> CLEAN_BUILD env = Some []) \<and>
    subprocess_run w None ''make clean'' = Some proc \<and> returncode proc = 0 \<longrightarrow>
      cleaning env w c =
        ([Stdout ''Cleaning previous builds...'', Stdout ''make clean'',
          Subprocess None ''make clean'',
          Stdout ''No CLEAN_BUILD option specified. Skipping clean step.''], None))"
proof -
  have a: "CXXFLAGS env = Some c \<and> c \<noteq> [] \<longrightarrow>
      (\<exists>rest. fst (main_thread (main env w)) =
         Stdout ''Cleaning previous builds...'' # Stdout ''make clean''
           # Subprocess None ''make clean'' # rest)"
    using main_log_head [of env c w] by (intro impI) (elim conjE)
  have b: "seq_thread (main env w) \<noteq> None \<or> pool (main env w) \<noteq> [] \<longrightarrow>
      (\<exists>proc. subprocess_run w None ''make clean'' = Some proc \<and> returncode proc = 0)"
  proof
    assume "seq_thread (main env w) \<noteq> None \<or> pool (main env w) \<noteq> []"
    from threads_after_cleaning [OF this] obtain c' where "snd (cleaning env w c') = None"
      by blast
    then show "\<exists>proc. subprocess_run w None ''make clean'' = Some proc \<and> returncode proc = 0"
      by (rule cleaning_make_clean_ok)
  qed
  have c: "(CLEAN_BUILD env = None \<or> CLEAN_BUILD env = Some []) \<and>
    subprocess_run w None ''make clean'' = Some proc \<and> returncode proc = 0 \<longrightarrow>
      cleaning env w c =
        ([Stdout ''Cleaning previous builds...'', Stdout ''make clean'',
          Subprocess None ''make clean'',
          Stdout ''No CLEAN_BUILD option specified. Skipping clean step.''], None)"
    using cleaning_skip [of env w proc c] by (intro impI) (elim conjE)
  show ?thesis by (rule conjI [OF a conjI [OF b c]])
qed

theorem make_clean_always_first_witness:
  "CXXFLAGS (only_cxxflags ''-DLDK'') = Some ''-DLDK'' \<and> ''-DLDK'' \<noteq> [] \<and>
   CLEAN_BUILD (only_cxxflags ''-DLDK'') = None \<and>
   (\<exists>rest. fst (main_thread (main (only_cxxflags ''-DLDK'') all_succeed)) =
         Stdout ''Cleaning previous builds...'' # Stdout ''make clean''
           # Subprocess None ''make clean'' # rest) \<and>
   cleaning (only_cxxflags ''-DLDK'') all_succeed ''-DLDK'' =
        ([Stdout ''Cleaning previous builds...'', Stdout ''make clean'',
          Subprocess None ''make clean'',
          Stdout ''No CLEAN_BUILD option specified. Skipping clean step.''], None) \<and>
   pool (main (only_cxxflags ''-DLDK'') all_succeed) \<noteq> [] \<and>
   (\<exists>proc. subprocess_run all_succeed None ''make clean'' = Some proc \<and> returncode proc = 0)"
proof -
  let ?env = "only_cxxflags ''-DLDK''"
  let ?proc = "\<lparr>returncode = 0, stdout = [], stderr = []\<rparr>"
  have h1: "CXXFLAGS ?env = Some ''-DLDK''" by (simp add: only_cxxflags_def)
  have h2: "''-DLDK'' \<noteq> []" by simp
  have h3: "CLEAN_BUILD ?env = None" by (simp add: only_cxxflags_def)
  have h4: "subprocess_run all_succeed None ''make clean'' = Some ?proc"
    by (simp add: all_succeed_def)
  have h5: "returncode ?proc = 0" by simp
  note t = make_clean_always_first [of ?env "''-DLDK''" all_succeed ?proc]
  from t [THEN conjunct1, THEN mp, OF conjI [OF h1 h2]]
  have r1: "\<exists>rest. fst (main_thread (main ?env all_succeed)) =
         Stdout ''Cleaning previous builds...'' # Stdout ''make clean''
           # Subprocess None ''make clean'' # rest" .
  from t [THEN conjunct2, THEN conjunct2, THEN mp, OF conjI [OF disjI1 [OF h3] conjI [OF h4 h5]]]
  have r2: "cleaning ?env all_succeed ''-DLDK'' =
        ([Stdout ''Cleaning previous builds...'', Stdout ''make clean'',
          Subprocess None ''make clean'',
          Stdout ''No CLEAN_BUILD option specified. Skipping clean step.''], None)" .
  have h6: "pool (main ?env all_succeed) \<noteq> []" by code_simp
  note r3 = t [THEN conjunct2, THEN conjunct1, THEN mp, OF disjI2 [OF h6]]
  show ?thesis
    by (rule conjI [OF h1 conjI [OF h2 conjI [OF h3 conjI [OF r1 conjI [OF r2 conjI [OF h6 r3]]]]]])
qed

lemma for_each_commands:
  assumes "\<And>x. snd ` set (subprocesses (fst (f x))) \<subseteq> A"
  shows "snd ` set (subprocesses (fst (for_each f xs))) \<subseteq> A"
proof (induction xs)
  case Nil
  show ?case by (simp add: effect_simps)
next
  case (Cons x xs)
  from assms [of x] Cons.IH show ?case
    by (simp add: fst_andthen subprocesses_append image_Un)
qed

lemma execute_in_dir_commands:
  "snd ` set (subprocesses (fst (execute_in_dir w d cmd quiet))) \<subseteq> {cmd}"
  by (auto simp: execute_in_dir_subprocesses)

lemma clean_by_flags_commands:
  "snd ` set (subprocesses (fst (clean_by_flags w flags))) \<subseteq> {''make clean''}"
proof -
  have "snd ` set (subprocesses (fst (for_each
          (\<lambda>flag. execute_in_dir w (get_module_dir (tables w) flag) ''make clean'' False) flags)))
        \<subseteq> {''make clean''}"
    by (rule for_each_commands) (rule execute_in_dir_commands)
  then show ?thesis
    by (simp add: clean_by_flags_def fst_andthen effect_simps subprocesses_append)
qed

lemma full_clean_commands:
  "snd ` set (subprocesses (fst (full_clean w))) \<subseteq> {''make clean''}"
proof -
  have a: "snd ` set (subprocesses (fst (for_each
          (\<lambda>d. execute_in_dir w d ''make clean'' False) (glob_modules w))))
        \<subseteq> {''make clean''}"
    by (rule for_each_commands) (rule execute_in_dir_commands)
  have b: "snd ` set (subprocesses (fst (execute_in_dir w ''custommutator'' ''make clean'' False)))
        \<subseteq> {''make clean''}"
    by (rule execute_in_dir_commands)
  from a b show ?thesis
    by (simp add: full_clean_def fst_andthen effect_simps subprocesses_append image_Un)
qed

lemma clean_step_commands:
  "snd ` set (subprocesses (fst (clean_step env w c))) \<subseteq> {''make clean''}"
  using clean_by_flags_commands full_clean_commands
  by (simp add: clean_step_def effect_simps split: option.splits)

lemma cleaning_commands:
  "snd ` set (subprocesses (fst (cleaning env w c))) \<subseteq> {''make clean''}"
  using clean_step_commands [of env w c]
  by (simp add: cleaning_def fst_andthen effect_simps subprocesses_append run_subprocesses image_Un)

lemma cleaning_ignores_only_modules:
  "cleaning (env\<lparr>ONLY_MODULES := m\<rparr>) w c = cleaning env w c"
  by (simp add: cleaning_def clean_step_def)

lemma main_no_flags:
  assumes "CXXFLAGS env = Some c" and "c \<noteq> []" and "get_flags c = []"
  shows "main env w =
     single_thread (if snd (cleaning env w c) = None
                    then (fst (cleaning env w c) @ [Stdout ''No modules to build.''], None)
                    else cleaning env w c)"
  using assms
  by (simp add: main_def Let_def andthen_def emit_def)


lemma get_flags_O2: "get_flags ''-O2'' = []"
  by code_simp

lemma cleaning_O2:
  "cleaning (only_cxxflags ''-O2'') all_succeed ''-O2'' =
        ([Stdout ''Cleaning previous builds...'', Stdout ''make clean'',
          Subprocess None ''make clean'',
          Stdout ''No CLEAN_BUILD option specified. Skipping clean step.''], None)"
  by (rule cleaning_skip [where proc = "\<lparr>returncode = 0, stdout = [], stderr = []\<rparr>"])
     (simp_all add: only_cxxflags_def all_succeed_def)

text \<open>
  Claim C10. When \<^verbatim>\<open>CXXFLAGS\<close> is not empty but holds no flag, the run ends behind the
  clean phase: no thread is started and nothing is submitted to the pool, every command the
  program runs is a \<^verbatim>\<open>make clean\<close> of the clean phase, so neither a module nor the
  top-level project is built, whatever \<^verbatim>\<open>ONLY_MODULES\<close> says; and when the clean phase
  has raised nothing, the program prints \<^verbatim>\<open>No modules to build.\<close> and exits with
  status 0.
\<close>

theorem no_flags_no_build:
  "CXXFLAGS env = Some c \<and> c \<noteq> [] \<and> get_flags c = [] \<longrightarrow>
     seq_thread (main env w) = None \<and> pool (main env w) = [] \<and>
     snd ` set (subprocesses (fst (main_thread (main env w)))) \<subseteq> {''make clean''} \<and>
     (None, ''make'') \<notin> set (subprocesses (fst (main_thread (main env w)))) \<and>
     main (env\<lparr>ONLY_MODULES := m\<rparr>) w = main env w \<and>
     (snd (cleaning env w c) = None \<longrightarrow>
        main_thread (main env w) = (fst (cleaning env w c) @ [Stdout ''No modules to build.''], None) \<and>
        exit_code (main env w) = 0)"
proof (intro impI, elim conjE)
  assume h: "CXXFLAGS env = Some c" "c \<noteq> []" "get_flags c = []"
  note m = main_no_flags [OF h, of w]
  have t: "seq_thread (main env w) = None" "pool (main env w) = []"
    unfolding m by (simp_all add: single_thread_def)
  have sub: "subprocesses (fst (main_thread (main env w))) = subprocesses (fst (cleaning env w c))"
    unfolding m by (simp add: single_thread_def subprocesses_append)
  have cmds: "snd ` set (subprocesses (fst (main_thread (main env w)))) \<subseteq> {''make clean''}"
    unfolding sub by (rule cleaning_commands)
  have nomake: "(None, ''make'') \<notin> set (subprocesses (fst (main_thread (main env w))))"
  proof
    assume "(None, ''make'') \<in> set (subprocesses (fst (main_thread (main env w))))"
    then have "snd (None :: string option, ''make'')
        \<in> snd ` set (subprocesses (fst (main_thread (main env w))))"
      by (rule imageI)
    then have "snd (None :: string option, ''make'') \<in> {''make clean''}"
      using cmds by (rule rev_subsetD)
    then show False by simp
  qed
  have h': "CXXFLAGS (env\<lparr>ONLY_MODULES := m\<rparr>) = Some c" using h(1) by simp
  have ind: "main (env\<lparr>ONLY_MODULES := m\<rparr>) w = main env w"
    unfolding m main_no_flags [OF h' h(2,3), of w] cleaning_ignores_only_modules ..
  have ok: "snd (cleaning env w c) = None \<longrightarrow>
        main_thread (main env w) = (fst (cleaning env w c) @ [Stdout ''No modules to build.''], None) \<and>
        exit_code (main env w) = 0"
    unfolding m by (simp add: single_thread_def exit_code_def)
  show "seq_thread (main env w) = None \<and> pool (main env w) = [] \<and>
     snd ` set (subprocesses (fst (main_thread (main env w)))) \<subseteq> {''make clean''} \<and>
     (None, ''make'') \<notin> set (subprocesses (fst (main_thread (main env w)))) \<and>
     main (env\<lparr>ONLY_MODULES := m\<rparr>) w = main env w \<and>
     (snd (cleaning env w c) = None \<longrightarrow>
        main_thread (main env w) = (fst (cleaning env w c) @ [Stdout ''No modules to build.''], None) \<and>
        exit_code (main env w) = 0)"
    by (rule conjI [OF t(1) conjI [OF t(2) conjI [OF cmds conjI [OF nomake conjI [OF ind ok]]]]])
qed

theorem no_flags_no_build_witness:
  "CXXFLAGS (only_cxxflags ''-O2'') = Some ''-O2'' \<and> ''-O2'' \<noteq> [] \<and> get_flags ''-O2'' = [] \<and>
   snd (cleaning (only_cxxflags ''-O2'') all_succeed ''-O2'') = None \<and>
   pool (main (only_cxxflags ''-O2'') all_succeed) = [] \<and>
   main ((only_cxxflags ''-O2'')\<lparr>ONLY_MODULES := Some 1\<rparr>) all_succeed
     = main (only_cxxflags ''-O2'') all_succeed \<and>
   main_thread (main (only_cxxflags ''-O2'') all_succeed) =
     ([Stdout ''Cleaning previous builds...'', Stdout ''make clean'',
       Subprocess None ''make clean'',
       Stdout ''No CLEAN_BUILD option specified. Skipping clean step.'',
       Stdout ''No modules to build.''], None) \<and>
   exit_code (main (only_cxxflags ''-O2'') all_succeed) = 0"
proof -
  let ?env = "only_cxxflags ''-O2''"
  have h1: "CXXFLAGS ?env = Some ''-O2''" by (simp add: only_cxxflags_def)
  have h2: "''-O2'' \<noteq> []" by simp
  have h4: "snd (cleaning ?env all_succeed ''-O2'') = None" unfolding cleaning_O2 by simp
  note t = no_flags_no_build [of ?env "''-O2''" all_succeed "Some 1", THEN mp,
      OF conjI [OF h1 conjI [OF h2 get_flags_O2]]]
  note t5 = t [THEN conjunct2, THEN conjunct2, THEN conjunct2, THEN conjunct2]
  note t6 = t5 [THEN conjunct2, THEN mp, OF h4]
  from t6 [THEN conjunct1] have r: "main_thread (main ?env all_succeed) =
     ([Stdout ''Cleaning previous builds...'', Stdout ''make clean'',
       Subprocess None ''make clean'',
       Stdout ''No CLEAN_BUILD option specified. Skipping clean step.'',
       Stdout ''No modules to build.''], None)"
    unfolding cleaning_O2 by simp
  show ?thesis
    by (rule conjI [OF h1 conjI [OF h2 conjI [OF get_flags_O2 conjI [OF h4
          conjI [OF t [THEN conjunct2, THEN conjunct1]
            conjI [OF t5 [THEN conjunct1] conjI [OF r t6 [THEN conjunct2]]]]]]]])
qed

text \<open>
  Claim C4, as the code has it. An absent or empty \<^verbatim>\<open>CXXFLAGS\<close> is fatal: the program
  prints the usage message to the error stream and exits with status 1 before it runs
  anything. A non-empty \<^verbatim>\<open>CXXFLAGS\<close> that holds no flag is no error: when the clean
  phase has raised nothing the program prints \<^verbatim>\<open>No modules to build.\<close> and exits with
  status 0.
\<close>

theorem flag_parsing_failures:
  "(CXXFLAGS env = None \<or> CXXFLAGS env = Some [] \<longrightarrow>
      main env w = single_thread ([Stderr (''Error: '' @ usage)], Some (SystemExit 1)) \<and>
      exit_code (main env w) = 1) \<and>
   (CXXFLAGS env = Some c \<and> c \<noteq> [] \<and> get_flags c = [] \<and> snd (cleaning env w c) = None \<longrightarrow>
      snd (main_thread (main env w)) = None \<and>
      last (fst (main_thread (main env w))) = Stdout ''No modules to build.'' \<and>
      exit_code (main env w) = 0)"
proof -
  have d: "die usage = ([Stderr (''Error: '' @ usage)], Some (SystemExit 1))"
    by (simp add: die_def andthen_def emit_def raise_def)
  have a: "CXXFLAGS env = None \<or> CXXFLAGS env = Some [] \<longrightarrow>
      main env w = single_thread ([Stderr (''Error: '' @ usage)], Some (SystemExit 1)) \<and>
      exit_code (main env w) = 1"
    by (auto simp: main_def d exit_code_def single_thread_def)
  have b: "CXXFLAGS env = Some c \<and> c \<noteq> [] \<and> get_flags c = [] \<and> snd (cleaning env w c) = None \<longrightarrow>
      snd (main_thread (main env w)) = None \<and>
      last (fst (main_thread (main env w))) = Stdout ''No modules to build.'' \<and>
      exit_code (main env w) = 0"
  proof (intro impI, elim conjE)
    assume h: "CXXFLAGS env = Some c" "c \<noteq> []" "get_flags c = []"
      and ok: "snd (cleaning env w c) = None"
    show "snd (main_thread (main env w)) = None \<and>
      last (fst (main_thread (main env w))) = Stdout ''No modules to build.'' \<and>
      exit_code (main env w) = 0"
      unfolding main_no_flags [OF h, of w] using ok
      by (simp add: single_thread_def exit_code_def)
  qed
  show ?thesis by (rule conjI [OF a b])
qed

theorem flag_parsing_failures_witness:
  "CXXFLAGS ((only_cxxflags ''-O2'')\<lparr>CXXFLAGS := None\<rparr>) = None \<and>
   exit_code (main ((only_cxxflags ''-O2'')\<lparr>CXXFLAGS := None\<rparr>) all_succeed) = 1 \<and>
   CXXFLAGS (only_cxxflags ''-O2'') = Some ''-O2'' \<and> ''-O2'' \<noteq> [] \<and> get_flags ''-O2'' = [] \<and>
   snd (cleaning (only_cxxflags ''-O2'') all_succeed ''-O2'') = None \<and>
   last (fst (main_thread (main (only_cxxflags ''-O2'') all_succeed))) = Stdout ''No modules to build.'' \<and>
   exit_code (main (only_cxxflags ''-O2'') all_succeed) = 0"
proof -
  let ?env = "only_cxxflags ''-O2''"
  have h0: "CXXFLAGS (?env\<lparr>CXXFLAGS := None\<rparr>) = None" by simp
  have h1: "CXXFLAGS ?env = Some ''-O2''" by (simp add: only_cxxflags_def)
  have h2: "''-O2'' \<noteq> []" by simp
  have h4: "snd (cleaning ?env all_succeed ''-O2'') = None" unfolding cleaning_O2 by simp
  note a = flag_parsing_failures [of "?env\<lparr>CXXFLAGS := None\<rparr>" all_succeed, THEN conjunct1,
      THEN mp, OF disjI1 [OF h0], THEN conjunct2]
  note b = flag_parsing_failures [of ?env all_succeed "''-O2''", THEN conjunct2, THEN mp,
      OF conjI [OF h1 conjI [OF h2 conjI [OF get_flags_O2 h4]]], THEN conjunct2]
  show ?thesis
    by (rule conjI [OF h0 conjI [OF a conjI [OF h1 conjI [OF h2 conjI [OF get_flags_O2
          conjI [OF h4 b]]]]]])
qed

theorem no_flags_exit_status_zero:
  "get_flags ''-O2'' = [] \<and> exit_code (main (only_cxxflags ''-O2'') all_succeed) = 0"
  by code_simp

section \<open>Properties of the cleaner\<close>

lemma andthen_skip_right: "andthen a skip = a"
  by (cases a) (auto simp: andthen_def skip_def split: option.splits)

lemma andthen_assoc: "andthen (andthen a b) c = andthen a (andthen b c)"
  by (auto simp: andthen_def split: option.splits)

lemma for_each_map: "for_each (\<lambda>x. f (g x)) xs = for_each f (map g xs)"
  by (induction xs) simp_all

lemma for_each_snoc: "andthen (for_each f xs) (f y) = for_each f (xs @ [y])"
  by (induction xs) (simp_all add: andthen_skip_left andthen_skip_right andthen_assoc)

lemma for_each_stops:
  assumes "\<forall>p \<in> set pre. snd (f p) = None" and "snd (f d) \<noteq> None"
  shows "for_each f (pre @ d # post) = (concat (map (\<lambda>p. fst (f p)) pre) @ fst (f d), snd (f d))"
  using assms(1)
proof (induction pre)
  case Nil
  from assms(2) show ?case by (simp add: andthen_raised)
next
  case (Cons p pre)
  then have ih: "for_each f (pre @ d # post)
      = (concat (map (\<lambda>p. fst (f p)) pre) @ fst (f d), snd (f d))" by simp
  from Cons.prems have "snd (f p) = None" by simp
  then show ?case by (simp add: ih andthen_def)
qed

lemma full_clean_dirs:
  "full_clean w =
     andthen (emit (Stdout ''Performing full clean...''))
       (for_each (\<lambda>d. execute_in_dir w d ''make clean'' False)
          (glob_modules w @ [''custommutator'']))"
  unfolding full_clean_def
  using for_each_snoc [of "\<lambda>d. execute_in_dir w d ''make clean'' False" "glob_modules w"
      "''custommutator''"]
  by simp

lemma clean_by_flags_dirs:
  "clean_by_flags w flags =
     andthen (emit (Stdout (''Cleaning modules: '' @ join_sp flags)))
       (for_each (\<lambda>d. execute_in_dir w d ''make clean'' False)
          (map (get_module_dir (tables w)) flags))"
  unfolding clean_by_flags_def
  using for_each_map [of "\<lambda>d. execute_in_dir w d ''make clean'' False" "get_module_dir (tables w)"
      flags]
  by simp

lemma clean_step_dirs:
  assumes "clean_dirs env w c \<noteq> []"
  shows "\<exists>header. clean_step env w c =
     andthen (emit (Stdout header))
       (for_each (\<lambda>d. execute_in_dir w d ''make clean'' False) (clean_dirs env w c))"
proof -
  from assms obtain cb where cb: "CLEAN_BUILD env = Some cb" "cb \<noteq> []"
    by (auto simp: clean_dirs_def split: option.splits if_splits)
  consider (full) "cb = ''FULL''" | (clean) "cb \<noteq> ''FULL''" "cb = ''CLEAN''"
    | (list) "cb \<noteq> ''FULL''" "cb \<noteq> ''CLEAN''" by blast
  then show ?thesis
  proof cases
    case full
    with cb have "clean_step env w c = full_clean w"
      and "clean_dirs env w c = glob_modules w @ [''custommutator'']"
      by (simp_all add: clean_step_def clean_dirs_def)
    then show ?thesis
      by (simp only: full_clean_dirs) (rule exI, rule refl)
  next
    case clean
    with cb have "clean_step env w c = clean_by_flags w (get_flags c)"
      and "clean_dirs env w c = map (get_module_dir (tables w)) (get_flags c)"
      by (simp_all add: clean_step_def clean_dirs_def)
    then show ?thesis
      by (simp only: clean_by_flags_dirs) (rule exI, rule refl)
  next
    case list
    with cb have "clean_step env w c = clean_by_flags w (py_split (tables w) cb)"
      and "clean_dirs env w c = map (get_module_dir (tables w)) (py_split (tables w) cb)"
      by (simp_all add: clean_step_def clean_dirs_def)
    then show ?thesis
      by (simp only: clean_by_flags_dirs) (rule exI, rule refl)
  qed
qed

lemma clean_ok_silent:
  "clean_ok w d \<Longrightarrow> snd (execute_in_dir w d ''make clean'' False) = None"
  by (auto simp: clean_ok_def execute_in_dir_raises run_raises split: option.splits)

lemma clean_failure_raises:
  "\<not> clean_ok w d \<Longrightarrow> snd (execute_in_dir w d ''make clean'' False) \<noteq> None"
  by (auto simp: clean_ok_def execute_in_dir_raises run_raises split: option.splits)

lemma clean_ok_commands:
  "clean_ok w d \<Longrightarrow>
     subprocesses (fst (execute_in_dir w d ''make clean'' False)) = [(Some d, ''make clean'')]"
  by (simp add: clean_ok_def execute_in_dir_subprocesses)

lemma subprocesses_concat_ok:
  assumes "\<forall>p \<in> set pre. clean_ok w p"
  shows "subprocesses (concat (map (\<lambda>p. fst (execute_in_dir w p ''make clean'' False)) pre))
     = map (\<lambda>p. (Some p, ''make clean'')) pre"
  using assms by (induction pre) (simp_all add: subprocesses_append clean_ok_commands)


lemma run_top_ok:
  assumes "subprocess_run w None cmd = Some proc0" and "returncode proc0 = 0"
  shows "run w cmd None False = ([Stdout cmd, Subprocess None cmd], None)"
  using assms by (simp add: run_def andthen_def emit_def skip_def)

lemma execute_missing_dir:
  assumes "\<not> is_dir w d"
  shows "execute_in_dir w d cmd quiet
     = ([Stderr (''Error: Directory '' @ d @ '' does not exist'')], Some (SystemExit 1))"
  using assms by (simp add: execute_in_dir_def die_def andthen_def emit_def raise_def)

lemma execute_command_failed:
  assumes "is_dir w d" and "subprocess_run w (Some d) cmd = Some proc" and "returncode proc \<noteq> 0"
  shows "snd (execute_in_dir w d cmd False) = Some (SystemExit 1) \<and>
         fst (execute_in_dir w d cmd False) \<noteq> [] \<and>
         last (fst (execute_in_dir w d cmd False)) = Stderr (''Error: Command failed: '' @ cmd)"
  using assms
  by (simp add: execute_in_dir_def run_def die_def andthen_def emit_def raise_def skip_def)

lemma main_clean_failure:
  assumes "CXXFLAGS env = Some c" and "c \<noteq> []"
    and "subprocess_run w None ''make clean'' = Some proc0" and "returncode proc0 = 0"
    and "clean_dirs env w c = pre @ d # post"
    and "\<forall>p \<in> set pre. clean_ok w p" and "\<not> clean_ok w d"
  shows "\<exists>header. main env w = single_thread
     ([Stdout ''Cleaning previous builds...'', Stdout ''make clean'',
       Subprocess None ''make clean'', Stdout header]
        @ concat (map (\<lambda>p. fst (execute_in_dir w p ''make clean'' False)) pre)
        @ fst (execute_in_dir w d ''make clean'' False),
      snd (execute_in_dir w d ''make clean'' False))"
proof -
  let ?F = "\<lambda>d. execute_in_dir w d ''make clean'' False"
  from assms(5) have ne: "clean_dirs env w c \<noteq> []" by simp
  from clean_step_dirs [OF ne] obtain header where
    cs: "clean_step env w c = andthen (emit (Stdout header)) (for_each ?F (pre @ d # post))"
    unfolding assms(5) by blast
  from assms(6) have ok: "\<forall>p \<in> set pre. snd (?F p) = None"
    by (simp add: clean_ok_silent)
  from assms(7) have bad: "snd (?F d) \<noteq> None" by (rule clean_failure_raises)
  note fe = for_each_stops [of pre ?F d post, OF ok bad]
  have cl: "cleaning env w c =
     ([Stdout ''Cleaning previous builds...'', Stdout ''make clean'',
       Subprocess None ''make clean'', Stdout header]
        @ concat (map (\<lambda>p. fst (?F p)) pre) @ fst (?F d), snd (?F d))"
    unfolding cleaning_def cs fe run_top_ok [OF assms(3,4)]
    by (simp add: andthen_def emit_def)
  from bad have "snd (cleaning env w c) \<noteq> None" unfolding cl by simp
  with assms(1,2) have "main env w = single_thread (cleaning env w c)"
    by (simp add: main_def Let_def)
  then have "main env w = single_thread
     ([Stdout ''Cleaning previous builds...'', Stdout ''make clean'',
       Subprocess None ''make clean'', Stdout header]
        @ concat (map (\<lambda>p. fst (?F p)) pre) @ fst (?F d), snd (?F d))"
    unfolding cl .
  then show ?thesis by (rule exI [of _ header])
qed

lemma execute_in_dir_exit:
  "snd (execute_in_dir w d cmd quiet) \<noteq> None \<Longrightarrow>
     (case snd (execute_in_dir w d cmd quiet) of
        None \<Rightarrow> 0 | Some (SystemExit n) \<Rightarrow> n | Some PyException \<Rightarrow> 1) = (1::int)"
  by (auto simp: execute_in_dir_raises run_raises split: option.splits if_splits)

lemma messages_differ:
  "''Error: Directory '' @ d @ '' does not exist'' \<noteq> ''Error: Command failed: make clean''"
  by simp

text \<open>
  Claim C8. In the full clean and in both selective cleans, the clean steps run one
  directory after the other. When the top-level \<^verbatim>\<open>make clean\<close> has succeeded and the
  first directory whose step fails is \<open>d\<close>, the run ends there with exit status 1: no
  thread is started and nothing is submitted to the pool, and the commands run are the
  top-level \<^verbatim>\<open>make clean\<close>, the \<^verbatim>\<open>make clean\<close> of the directories in front of
  \<open>d\<close> and, when \<open>d\<close> exists, the one in \<open>d\<close>; no later directory is cleaned. A missing
  directory ends the run with the message \<^verbatim>\<open>Directory d does not exist\<close>, a failed
  command with \<^verbatim>\<open>Command failed: make clean\<close>, and the two messages differ.
\<close>

theorem first_clean_failure_is_fatal:
  "CXXFLAGS env = Some c \<and> c \<noteq> [] \<and>
   subprocess_run w None ''make clean'' = Some proc0 \<and> returncode proc0 = 0 \<and>
   clean_dirs env w c = pre @ d # post \<and> (\<forall>p \<in> set pre. clean_ok w p) \<and> \<not> clean_ok w d \<longrightarrow>
     exit_code (main env w) = 1 \<and>
     seq_thread (main env w) = None \<and> pool (main env w) = [] \<and>
     subprocesses (fst (main_thread (main env w))) =
       (None, ''make clean'') # map (\<lambda>p. (Some p, ''make clean'')) pre
         @ (if is_dir w d then [(Some d, ''make clean'')] else []) \<and>
     (\<not> is_dir w d \<longrightarrow>
        snd (main_thread (main env w)) = Some (SystemExit 1) \<and>
        last (fst (main_thread (main env w))) = Stderr (''Error: Directory '' @ d @ '' does not exist'')) \<and>
     (\<forall>proc. is_dir w d \<and> subprocess_run w (Some d) ''make clean'' = Some proc \<and>
             returncode proc \<noteq> 0 \<longrightarrow>
        snd (main_thread (main env w)) = Some (SystemExit 1) \<and>
        last (fst (main_thread (main env w))) = Stderr ''Error: Command failed: make clean'') \<and>
     ''Error: Directory '' @ d @ '' does not exist'' \<noteq> ''Error: Command failed: make clean''"
proof (intro impI, elim conjE)
  let ?F = "\<lambda>d. execute_in_dir w d ''make clean'' False"
  assume h: "CXXFLAGS env = Some c" "c \<noteq> []"
    "subprocess_run w None ''make clean'' = Some proc0" "returncode proc0 = 0"
    "clean_dirs env w c = pre @ d # post" "\<forall>p \<in> set pre. clean_ok w p" "\<not> clean_ok w d"
  from main_clean_failure [OF h] obtain header where
    m: "main env w = single_thread
     ([Stdout ''Cleaning previous builds...'', Stdout ''make clean'',
       Subprocess None ''make clean'', Stdout header]
        @ concat (map (\<lambda>p. fst (?F p)) pre) @ fst (?F d), snd (?F d))"
    by (elim exE)
  from h(7) have bad: "snd (?F d) \<noteq> None" by (rule clean_failure_raises)
  have ex: "exit_code (main env w) = 1"
    unfolding m exit_code_def single_thread_def using execute_in_dir_exit [OF bad] by simp
  have t1: "seq_thread (main env w) = None" unfolding m by (simp add: single_thread_def)
  have t2: "pool (main env w) = []" unfolding m by (simp add: single_thread_def)
  have cmds: "subprocesses (fst (main_thread (main env w))) =
       (None, ''make clean'') # map (\<lambda>p. (Some p, ''make clean'')) pre
         @ (if is_dir w d then [(Some d, ''make clean'')] else [])"
    unfolding m
    by (simp add: single_thread_def subprocesses_append subprocesses_concat_ok [OF h(6)]
        execute_in_dir_subprocesses)
  have missing: "\<not> is_dir w d \<longrightarrow>
        snd (main_thread (main env w)) = Some (SystemExit 1) \<and>
        last (fst (main_thread (main env w))) = Stderr (''Error: Directory '' @ d @ '' does not exist'')"
  proof
    assume "\<not> is_dir w d"
    note e = execute_missing_dir [OF this, of "''make clean''" False]
    show "snd (main_thread (main env w)) = Some (SystemExit 1) \<and>
        last (fst (main_thread (main env w))) = Stderr (''Error: Directory '' @ d @ '' does not exist'')"
      unfolding m e by (simp add: single_thread_def)
  qed
  have failed: "\<forall>proc. is_dir w d \<and> subprocess_run w (Some d) ''make clean'' = Some proc \<and>
             returncode proc \<noteq> 0 \<longrightarrow>
        snd (main_thread (main env w)) = Some (SystemExit 1) \<and>
        last (fst (main_thread (main env w))) = Stderr ''Error: Command failed: make clean''"
  proof (intro allI impI, elim conjE)
    fix proc
    assume "is_dir w d" "subprocess_run w (Some d) ''make clean'' = Some proc" "returncode proc \<noteq> 0"
    from execute_command_failed [OF this]
    have e: "snd (?F d) = Some (SystemExit 1)" "fst (?F d) \<noteq> []"
      "last (fst (?F d)) = Stderr ''Error: Command failed: make clean''"
      by simp_all
    show "snd (main_thread (main env w)) = Some (SystemExit 1) \<and>
        last (fst (main_thread (main env w))) = Stderr ''Error: Command failed: make clean''"
      unfolding m using e by (simp add: single_thread_def)
  qed
  show "exit_code (main env w) = 1 \<and>
     seq_thread (main env w) = None \<and> pool (main env w) = [] \<and>
     subprocesses (fst (main_thread (main env w))) =
       (None, ''make clean'') # map (\<lambda>p. (Some p, ''make clean'')) pre
         @ (if is_dir w d then [(Some d, ''make clean'')] else []) \<and>
     (\<not> is_dir w d \<longrightarrow>
        snd (main_thread (main env w)) = Some (SystemExit 1) \<and>
        last (fst (main_thread (main env w))) = Stderr (''Error: Directory '' @ d @ '' does not exist'')) \<and>
     (\<forall>proc. is_dir w d \<and> subprocess_run w (Some d) ''make clean'' = Some proc \<and>
             returncode proc \<noteq> 0 \<longrightarrow>
        snd (main_thread (main env w)) = Some (SystemExit 1) \<and>
        last (fst (main_thread (main env w))) = Stderr ''Error: Command failed: make clean'') \<and>
     ''Error: Directory '' @ d @ '' does not exist'' \<noteq> ''Error: Command failed: make clean''"
    by (rule conjI [OF ex conjI [OF t1 conjI [OF t2 conjI [OF cmds conjI [OF missing
          conjI [OF failed messages_differ]]]]]])
qed

theorem first_clean_failure_is_fatal_witness:
  "clean_dirs ((only_cxxflags ''-DLDK'')\<lparr>CLEAN_BUILD := Some ''FULL''\<rparr>)
     ((failing_in ''modules/b'')\<lparr>glob_modules := [''modules/a'', ''modules/b'', ''modules/c'']\<rparr>)
     ''-DLDK'' = [''modules/a''] @ ''modules/b'' # [''modules/c'', ''custommutator''] \<and>
   clean_ok ((failing_in ''modules/b'')\<lparr>glob_modules := [''modules/a'', ''modules/b'', ''modules/c'']\<rparr>)
     ''modules/a'' \<and>
   \<not> clean_ok ((failing_in ''modules/b'')\<lparr>glob_modules := [''modules/a'', ''modules/b'', ''modules/c'']\<rparr>)
     ''modules/b'' \<and>
   exit_code (main ((only_cxxflags ''-DLDK'')\<lparr>CLEAN_BUILD := Some ''FULL''\<rparr>)
     ((failing_in ''modules/b'')\<lparr>glob_modules := [''modules/a'', ''modules/b'', ''modules/c'']\<rparr>)) = 1 \<and>
   subprocesses (fst (main_thread (main ((only_cxxflags ''-DLDK'')\<lparr>CLEAN_BUILD := Some ''FULL''\<rparr>)
     ((failing_in ''modules/b'')\<lparr>glob_modules := [''modules/a'', ''modules/b'', ''modules/c'']\<rparr>))))
     = [(None, ''make clean''), (Some ''modules/a'', ''make clean''), (Some ''modules/b'', ''make clean'')] \<and>
   last (fst (main_thread (main ((only_cxxflags ''-DLDK'')\<lparr>CLEAN_BUILD := Some ''FULL''\<rparr>)
     ((failing_in ''modules/b'')\<lparr>glob_modules := [''modules/a'', ''modules/b'', ''modules/c'']\<rparr>))))
     = Stderr ''Error: Command failed: make clean'' \<and>
   clean_dirs ((only_cxxflags ''-DLDK'')\<lparr>CLEAN_BUILD := Some ''LDK LND''\<rparr>)
     (all_succeed\<lparr>is_dir := (\<lambda>d. d \<noteq> ''modules/lnd'')\<rparr>) ''-DLDK''
     = [''modules/ldk''] @ ''modules/lnd'' # [] \<and>
   \<not> is_dir (all_succeed\<lparr>is_dir := (\<lambda>d. d \<noteq> ''modules/lnd'')\<rparr>) ''modules/lnd'' \<and>
   exit_code (main ((only_cxxflags ''-DLDK'')\<lparr>CLEAN_BUILD := Some ''LDK LND''\<rparr>)
     (all_succeed\<lparr>is_dir := (\<lambda>d. d \<noteq> ''modules/lnd'')\<rparr>)) = 1 \<and>
   last (fst (main_thread (main ((only_cxxflags ''-DLDK'')\<lparr>CLEAN_BUILD := Some ''LDK LND''\<rparr>)
     (all_succeed\<lparr>is_dir := (\<lambda>d. d \<noteq> ''modules/lnd'')\<rparr>))))
     = Stderr ''Error: Directory modules/lnd does not exist''"
proof -
  let ?ea = "(only_cxxflags ''-DLDK'')\<lparr>CLEAN_BUILD := Some ''FULL''\<rparr>"
  let ?wa = "(failing_in ''modules/b'')\<lparr>glob_modules := [''modules/a'', ''modules/b'', ''modules/c'']\<rparr>"
  let ?eb = "(only_cxxflags ''-DLDK'')\<lparr>CLEAN_BUILD := Some ''LDK LND''\<rparr>"
  let ?wb = "all_succeed\<lparr>is_dir := (\<lambda>d. d \<noteq> ''modules/lnd'')\<rparr>"
  let ?p0 = "\<lparr>returncode = 0, stdout = [], stderr = []\<rparr>"
  have c: "''-DLDK'' \<noteq> []" by simp
  have a1: "CXXFLAGS ?ea = Some ''-DLDK''" by (simp add: only_cxxflags_def)
  have a3: "subprocess_run ?wa None ''make clean'' = Some ?p0"
    by (simp add: failing_in_def all_succeed_def)
  have p0: "returncode ?p0 = 0" by simp
  have a5: "clean_dirs ?ea ?wa ''-DLDK'' = [''modules/a''] @ ''modules/b'' # [''modules/c'', ''custommutator'']"
    by (simp add: clean_dirs_def only_cxxflags_def)
  have a6: "clean_ok ?wa ''modules/a''"
    by (simp add: clean_ok_def failing_in_def all_succeed_def)
  then have a6': "\<forall>p \<in> set [''modules/a'']. clean_ok ?wa p" by simp
  have a7: "\<not> clean_ok ?wa ''modules/b''"
    by (simp add: clean_ok_def failing_in_def all_succeed_def)
  have a8: "is_dir ?wa ''modules/b''" by (simp add: failing_in_def all_succeed_def)
  note ta = first_clean_failure_is_fatal [of ?ea "''-DLDK''" ?wa ?p0 "[''modules/a'']" "''modules/b''"
      "[''modules/c'', ''custommutator'']", THEN mp,
      OF conjI [OF a1 conjI [OF c conjI [OF a3 conjI [OF p0 conjI [OF a5 conjI [OF a6' a7]]]]]]]
  from ta [THEN conjunct2, THEN conjunct2, THEN conjunct2, THEN conjunct1] a8
  have ra: "subprocesses (fst (main_thread (main ?ea ?wa)))
     = [(None, ''make clean''), (Some ''modules/a'', ''make clean''), (Some ''modules/b'', ''make clean'')]"
    by simp
  let ?p2 = "\<lparr>returncode = 2, stdout = [], stderr = []\<rparr>"
  have a9: "subprocess_run ?wa (Some ''modules/b'') ''make clean'' = Some ?p2"
    by (simp add: failing_in_def all_succeed_def)
  have p2: "returncode ?p2 \<noteq> 0" by simp
  note rc = ta [THEN conjunct2, THEN conjunct2, THEN conjunct2, THEN conjunct2, THEN conjunct2,
      THEN conjunct1, THEN spec, THEN mp, OF conjI [OF a8 conjI [OF a9 p2]], THEN conjunct2]
  have b1: "CXXFLAGS ?eb = Some ''-DLDK''" by (simp add: only_cxxflags_def)
  have b3: "subprocess_run ?wb None ''make clean'' = Some ?p0" by (simp add: all_succeed_def)
  have sp: "py_split (tables all_succeed) ''LDK LND'' = [''LDK'', ''LND'']" by code_simp
  have g: "get_module_dir (tables all_succeed) ''LDK'' = ''modules/ldk''"
    "get_module_dir (tables all_succeed) ''LND'' = ''modules/lnd''"
    by code_simp+
  have b5: "clean_dirs ?eb ?wb ''-DLDK'' = [''modules/ldk''] @ ''modules/lnd'' # []"
    by (simp add: clean_dirs_def only_cxxflags_def sp g)
  have b6: "\<forall>p \<in> set [''modules/ldk'']. clean_ok ?wb p"
    by (simp add: clean_ok_def all_succeed_def)
  have b8: "\<not> is_dir ?wb ''modules/lnd''" by simp
  then have b7: "\<not> clean_ok ?wb ''modules/lnd''" by (simp add: clean_ok_def)
  note tb = first_clean_failure_is_fatal [of ?eb "''-DLDK''" ?wb ?p0 "[''modules/ldk'']" "''modules/lnd''"
      "[]", THEN mp,
      OF conjI [OF b1 conjI [OF c conjI [OF b3 conjI [OF p0 conjI [OF b5 conjI [OF b6 b7]]]]]]]
  from tb [THEN conjunct2, THEN conjunct2, THEN conjunct2, THEN conjunct2, THEN conjunct1,
      THEN mp, OF b8, THEN conjunct2]
  have rb: "last (fst (main_thread (main ?eb ?wb)))
     = Stderr ''Error: Directory modules/lnd does not exist''"
    by simp
  show ?thesis
    by (rule conjI [OF a5 conjI [OF a6 conjI [OF a7 conjI [OF ta [THEN conjunct1] conjI [OF ra conjI [OF rc
          conjI [OF b5 conjI [OF b8 conjI [OF tb [THEN conjunct1] rb]]]]]]]]])
qed

section \<open>Failures of the builds\<close>

text \<open>
  Claim C2, at a failing build of the sequential group. With
  \<^verbatim>\<open>CXXFLAGS="-DSECP256K1 -DBITCOINJ"\<close> and a \<^verbatim>\<open>make\<close> that returns 2 in
  \<^verbatim>\<open>modules/secp256k1\<close>, the thread of the sequential group ends with \<^verbatim>\<open>SystemExit\<close>
  behind the first module and never builds \<^verbatim>\<open>BITCOINJ\<close>; the main thread goes on,
  prints that all module builds completed successfully, builds the top-level project and
  the process exits with status 0.
\<close>

theorem sequential_failure_exits_zero:
  "map_option snd (seq_thread (main (only_cxxflags ''-DSECP256K1 -DBITCOINJ'')
      (failing_in ''modules/secp256k1''))) = Some (Some (SystemExit 1)) \<and>
   map_option (\<lambda>t. subprocesses (fst t)) (seq_thread (main (only_cxxflags ''-DSECP256K1 -DBITCOINJ'')
      (failing_in ''modules/secp256k1''))) = Some [(Some ''modules/secp256k1'', ''make'')] \<and>
   main_thread (main (only_cxxflags ''-DSECP256K1 -DBITCOINJ'') (failing_in ''modules/secp256k1'')) =
     ([Stdout ''Cleaning previous builds...'', Stdout ''make clean'',
       Subprocess None ''make clean'',
       Stdout ''No CLEAN_BUILD option specified. Skipping clean step.'',
       Stdout ''Compiling selected modules in parallel (jobs=0) with CXXFLAGS=-DSECP256K1 -DBITCOINJ...'',
       Stdout ''All module builds completed successfully!'',
       Stdout ''Compiling the main project in the root...'', Stdout ''make'',
       Subprocess None ''make'', Stdout ''Build completed successfully!''], None) \<and>
   exit_code (main (only_cxxflags ''-DSECP256K1 -DBITCOINJ'') (failing_in ''modules/secp256k1'')) = 0"
  by code_simp

text \<open>
  A failing build of the parallel group reaches the main thread: when the clean phase has
  raised nothing and some module handed to the pool fails, \<^verbatim>\<open>fut.result()\<close> raises in
  the main thread and the process exits with status 1.
\<close>

lemma first_raised_None: "first_raised rs = None \<longleftrightarrow> (\<forall>r \<in> set rs. snd r = None)"
  by (induction rs) (auto split: option.splits)

lemma first_raised_member: "first_raised rs = Some e \<Longrightarrow> \<exists>r \<in> set rs. snd r = Some e"
  by (induction rs) (auto split: option.splits)

lemma build_module_exceptions:
  "snd (build_module w f quiet) \<in> {None, Some (SystemExit 1), Some PyException}"
  by (simp add: build_module_raises execute_in_dir_raises run_raises split: option.splits)

lemma parallel_builds_raise:
  assumes "f \<in> set par" and "snd (build_module w f quiet) \<noteq> None"
    and "set (completion_order w par) = set par"
  shows "snd (parallel_builds w seq par j quiet) \<in> {Some (SystemExit 1), Some PyException}"
proof (cases "j < 0")
  case True
  then show ?thesis by (simp add: parallel_builds_def effect_simps)
next
  case False
  let ?rs = "map (\<lambda>f. build_module w f quiet) (completion_order w par)"
  from assms have "\<exists>r \<in> set ?rs. snd r \<noteq> None" by auto
  then obtain e where e: "first_raised ?rs = Some e"
    using first_raised_None [of ?rs] by (cases "first_raised ?rs") auto
  from first_raised_member [OF e] obtain g where "snd (build_module w g quiet) = Some e" by auto
  with build_module_exceptions [of w g quiet] have "e = SystemExit 1 \<or> e = PyException" by auto
  then show ?thesis
    using False e by (auto simp: parallel_builds_def effect_simps snd_andthen)
qed

lemma parallel_failure_exit_code:
  assumes "CXXFLAGS env = Some c" and "c \<noteq> []" and "snd (cleaning env w c) = None"
    and "PARALLEL_JOBS env = Some j"
    and "f \<in> set (parallel (get_flags c))" and "snd (build_module w f (j \<noteq> 1)) \<noteq> None"
    and "set (completion_order w (parallel (get_flags c))) = set (parallel (get_flags c))"
  shows "exit_code (main env w) = 1"
proof -
  from assms(5) have ne1: "parallel (get_flags c) \<noteq> []" by auto
  then have ne2: "get_flags c \<noteq> []" by (auto simp: parallel_def)
  note ne = ne1 ne2
  from parallel_builds_raise [OF assms(5,6,7), of "sequential (get_flags c)" j]
  have "snd (parallel_builds w (sequential (get_flags c)) (parallel (get_flags c)) j (j \<noteq> 1))
      \<in> {Some (SystemExit 1), Some PyException}" .
  then have "snd (main_thread (main env w)) \<in> {Some (SystemExit 1), Some PyException}"
    using assms(1-4) ne
    by (auto simp: main_def Let_def snd_andthen effect_simps)
  then show ?thesis by (auto simp: exit_code_def)
qed

text \<open>
  The main thread reads nothing of the thread of the sequential group. When every flag is
  forced-sequential, the log and the exit status of the main thread are those of the clean
  phase, the line that announces the builds and the final steps, whatever the builds of
  the sequential group did.
\<close>

lemma only_sequential_main_thread:
  assumes "CXXFLAGS env = Some c" and "c \<noteq> []" and "snd (cleaning env w c) = None"
    and "get_flags c \<noteq> []" and "parallel (get_flags c) = []"
    and "PARALLEL_JOBS env = Some j"
  shows "main_thread (main env w) =
     andthen (cleaning env w c)
       (andthen (emit (Stdout (compiling_line j c))) (finish env w))"
    and "snd (finish env w) = None \<Longrightarrow> exit_code (main env w) = 0"
proof -
  from assms show m: "main_thread (main env w) =
     andthen (cleaning env w c)
       (andthen (emit (Stdout (compiling_line j c))) (finish env w))"
    by (simp add: main_def Let_def andthen_skip_left)
  assume "snd (finish env w) = None"
  with assms(3) show "exit_code (main env w) = 0"
    unfolding exit_code_def m by (simp add: snd_andthen effect_simps)
qed

end
